theory Spec2Isabelle
  imports Main "HOL-Library.Sublist" "HOL-Library.Multiset"
begin

section \<open>Validator (utils/validation.ts)\<close>

text \<open>
  JavaScript strings are modelled as \<open>string\<close>, a list of characters, one character for
  each code unit (code units below 256). The empty string is the only falsy string, so
  \<open>!name || name.length === 0\<close> is \<open>name = []\<close>.
\<close>

definition MAX_PROFILE_NAME_LENGTH :: nat where
  "MAX_PROFILE_NAME_LENGTH = 32"

definition is_lower :: "char \<Rightarrow> bool" where
  "is_lower c = ((97::nat) \<le> of_char c \<and> (of_char c :: nat) \<le> 122)"

definition is_digit :: "char \<Rightarrow> bool" where
  "is_digit c = ((48::nat) \<le> of_char c \<and> (of_char c :: nat) \<le> 57)"

definition is_upper :: "char \<Rightarrow> bool" where
  "is_upper c = ((65::nat) \<le> of_char c \<and> (of_char c :: nat) \<le> 90)"

text \<open>The regular expression \<open>/^[a-z]/\<close>.\<close>

fun starts_lower :: "string \<Rightarrow> bool" where
  "starts_lower [] = False"
| "starts_lower (c # cs) = is_lower c"

text \<open>The regular expression \<open>/^[a-z][a-z0-9-]*$/\<close> (no flags: \<open>$\<close> is the end of input).\<close>

fun PROFILE_NAME_PATTERN :: "string \<Rightarrow> bool" where
  "PROFILE_NAME_PATTERN [] = False"
| "PROFILE_NAME_PATTERN (c # cs) =
     (is_lower c \<and> list_all (\<lambda>d. is_lower d \<or> is_digit d \<or> d = CHR ''-'') cs)"

definition RESERVED_NAMES :: "string list" where
  "RESERVED_NAMES = [''claude'', ''default'', ''main'', ''primary'']"

text \<open>\<open>String.prototype.toLowerCase\<close> on the ASCII letters.\<close>

definition toLowerCase :: "string \<Rightarrow> string" where
  "toLowerCase s = map (\<lambda>c. if is_upper c then char_of (of_char c + (32::nat)) else c) s"

definition isValidProfileName :: "string \<Rightarrow> bool" where
  "isValidProfileName name =
     (if name = [] then False
      else if length name > MAX_PROFILE_NAME_LENGTH then False
      else if \<not> PROFILE_NAME_PATTERN name then False
      else if toLowerCase name \<in> set RESERVED_NAMES then False
      else True)"

definition getProfileNameError :: "string \<Rightarrow> string option" where
  "getProfileNameError name =
     (if name = [] then Some ''Profile name is required''
      else if length name > MAX_PROFILE_NAME_LENGTH then Some ''Name must be 32 characters or less''
      else if \<not> starts_lower name then Some ''Name must start with a lowercase letter''
      else if \<not> PROFILE_NAME_PATTERN name then Some ''Use only lowercase letters, numbers, and hyphens''
      else if toLowerCase name \<in> set RESERVED_NAMES then Some ([CHR 0x22] @ name @ [CHR 0x22] @ '' is a reserved name'')
      else None)"


section \<open>Paths (utils/paths.ts)\<close>

text \<open>
  A path is absolute: the list of its components below the root directory.
  \<open>path.join\<close> of Node.js concatenates its arguments with a slash and normalises the
  result: empty components and \<open>.\<close> are dropped, \<open>..\<close> removes the component before it
  (and is dropped at the root).
\<close>

type_synonym path = "string list"

fun split_slash_aux :: "string \<Rightarrow> string \<Rightarrow> string list" where
  "split_slash_aux acc [] = [rev acc]"
| "split_slash_aux acc (c # cs) =
     (if c = CHR ''/'' then rev acc # split_slash_aux [] cs else split_slash_aux (c # acc) cs)"

definition split_slash :: "string \<Rightarrow> string list" where
  "split_slash s = split_slash_aux [] s"

definition normalize_step :: "path \<Rightarrow> string \<Rightarrow> path" where
  "normalize_step acc c =
     (if c = [] \<or> c = ''.'' then acc else if c = ''..'' then butlast acc else acc @ [c])"

definition path_normalize :: "string list \<Rightarrow> path" where
  "path_normalize cs = foldl normalize_step [] cs"

text \<open>A component that normalisation keeps as it is.\<close>

definition plain :: "string \<Rightarrow> bool" where
  "plain c = (c \<noteq> [] \<and> c \<noteq> ''.'' \<and> c \<noteq> ''..'')"

definition join :: "path \<Rightarrow> string \<Rightarrow> path" where
  "join base s = path_normalize (base @ split_slash s)"

text \<open>The process environment: \<open>os.homedir()\<close> and \<open>process.env.SHELL\<close>.\<close>

record env =
  HOME :: path
  SHELL :: string

datatype item_type = file_item | directory_item

record SharedItem =
  item_name :: string
  item_type :: item_type
  item_required :: bool

definition mainConfig :: "env \<Rightarrow> path" where
  "mainConfig e = join (HOME e) ''.claude''"

definition mainCredentials :: "env \<Rightarrow> path" where
  "mainCredentials e = join (HOME e) ''.claude.json''"

definition sharedItems :: "SharedItem list" where
  "sharedItems =
     [\<lparr>item_name = ''settings.json'', item_type = file_item, item_required = True\<rparr>,
      \<lparr>item_name = ''stats-cache.json'', item_type = file_item, item_required = False\<rparr>,
      \<lparr>item_name = ''CLAUDE.md'', item_type = file_item, item_required = False\<rparr>,
      \<lparr>item_name = ''agents'', item_type = directory_item, item_required = False\<rparr>,
      \<lparr>item_name = ''commands'', item_type = directory_item, item_required = False\<rparr>,
      \<lparr>item_name = ''plugins'', item_type = directory_item, item_required = False\<rparr>,
      \<lparr>item_name = ''skills'', item_type = directory_item, item_required = False\<rparr>]"

definition profilesConfig :: "env \<Rightarrow> path" where
  "profilesConfig e = join (HOME e) ''.cc-profiles.json''"

definition getProfilePath :: "env \<Rightarrow> string \<Rightarrow> path" where
  "getProfilePath e name = join (HOME e) (''.claude-'' @ name)"

definition getProfileCredentialsPath :: "env \<Rightarrow> string \<Rightarrow> path" where
  "getProfileCredentialsPath e name = join (HOME e) (''.claude-'' @ name @ ''.json'')"

section \<open>Data model (types/index.ts)\<close>

text \<open>
  A JavaScript \<open>Date\<close> is its time value in milliseconds, or \<open>None\<close> for an Invalid Date
  (time value \<open>NaN\<close>). The \<open>createdAt\<close> string stored in a metadata record is modelled
  by the date \<open>new Date\<close> makes of it: the ISO-8601 strings that \<open>toISOString\<close> writes
  give their time value, a string that does not parse (or a missing field) gives the
  Invalid Date. \<open>Record<string, ProfileMetadata>\<close> is an association list in the order
  of \<open>Object.entries\<close> (insertion order for keys that are not array indices).
\<close>

type_synonym date = "int option"

record ProfileMetadata =
  meta_name :: string
  meta_createdAt :: date
  meta_shellAlias :: string

record ProfileConfig =
  profiles :: "(string \<times> ProfileMetadata) list"
  defaultProfile :: "string option"
  version :: string

record Profile =
  profile_name :: string
  profile_path :: path
  configPath :: path
  credentialsPath :: path
  isAuthenticated :: bool
  createdAt :: date

record SymlinkTarget =
  link_source :: path
  link_target :: path
  link_type :: item_type
  link_required :: bool

section \<open>The file system (node:fs)\<close>

text \<open>
  What \<open>JSON.parse\<close> returns for a file's text, seen through the unchecked cast
  \<open>as ProfileConfig\<close>: a falsy value (\<open>null\<close>, \<open>false\<close>, \<open>0\<close>, the empty string), a
  configuration object, or some other truthy value that has no \<open>profiles\<close> mapping.
  A file holds either text that \<open>JSON.parse\<close> rejects (\<open>Text\<close>; also used for the shell
  files, which are never parsed) or text that it accepts (\<open>Json\<close>, given by the parsed value).
\<close>

datatype json_value = Falsy | Config ProfileConfig | Shapeless

datatype content = Text string | Json json_value

datatype node = File content | Dir | Symlink path

text \<open>
  The file system maps the physical path of every directory entry to its node. The root is
  a directory. A symbolic link holds an absolute path and is followed when it is the last
  component of the path that is looked up. Entries are looked up at their physical paths:
  a path that runs through a symbolic link to a directory is outside the model, and so are
  permissions and the other ways an operation of \<open>node:fs\<close> can fail on a well-formed
  tree.
\<close>

type_synonym filesystem = "path \<Rightarrow> node option"

datatype error =
    InvalidName
  | AlreadyExists string
  | DoesNotExist string
  | NotConfigured
  | RequiredFileNotFound path
  | TypeError
  | IOError

definition lookup :: "filesystem \<Rightarrow> path \<Rightarrow> node option" where
  "lookup fs p = (if p = [] then Some Dir else fs p)"

text \<open>\<open>stat\<close>: follows symbolic links, at most 40 of them (\<open>ELOOP\<close> beyond).\<close>

fun follow :: "nat \<Rightarrow> filesystem \<Rightarrow> path \<Rightarrow> (path \<times> node) option" where
  "follow 0 fs p =
     (case lookup fs p of
        None \<Rightarrow> None
      | Some (Symlink t) \<Rightarrow> None
      | Some nd \<Rightarrow> Some (p, nd))"
| "follow (Suc n) fs p =
     (case lookup fs p of
        None \<Rightarrow> None
      | Some (Symlink t) \<Rightarrow> follow n fs t
      | Some nd \<Rightarrow> Some (p, nd))"

definition stat :: "filesystem \<Rightarrow> path \<Rightarrow> (path \<times> node) option" where
  "stat fs p = follow 40 fs p"

definition existsSync :: "filesystem \<Rightarrow> path \<Rightarrow> bool" where
  "existsSync fs p = (stat fs p \<noteq> None)"

text \<open>\<open>lstatSync(p).isSymbolicLink()\<close>; every call in the source follows a successful
  \<open>existsSync(p)\<close>, so the entry is there.\<close>

definition isSymbolicLink :: "filesystem \<Rightarrow> path \<Rightarrow> bool" where
  "isSymbolicLink fs p = (case lookup fs p of Some (Symlink t) \<Rightarrow> True | _ \<Rightarrow> False)"

definition is_dir :: "filesystem \<Rightarrow> path \<Rightarrow> bool" where
  "is_dir fs p = (lookup fs p = Some Dir)"

text \<open>\<open>fs.rm(p, { recursive: true, force: true })\<close>: removes the entry, and everything
  below it when it is a directory; a missing entry is no error.\<close>

definition rm_rf :: "filesystem \<Rightarrow> path \<Rightarrow> filesystem" where
  "rm_rf fs p =
     (case lookup fs p of
        None \<Rightarrow> fs
      | Some Dir \<Rightarrow> (\<lambda>q. if prefix p q then None else fs q)
      | Some nd \<Rightarrow> fs(p := None))"

text \<open>\<open>fs.rm(p)\<close> without options and \<open>fs.unlink(p)\<close>: fail on a missing entry and on a
  directory.\<close>

definition rm_plain :: "filesystem \<Rightarrow> path \<Rightarrow> filesystem option" where
  "rm_plain fs p =
     (case lookup fs p of
        None \<Rightarrow> None
      | Some Dir \<Rightarrow> None
      | Some nd \<Rightarrow> Some (fs(p := None)))"

definition unlink :: "filesystem \<Rightarrow> path \<Rightarrow> filesystem option" where
  "unlink fs p =
     (case lookup fs p of
        None \<Rightarrow> None
      | Some Dir \<Rightarrow> None
      | Some nd \<Rightarrow> Some (fs(p := None)))"

text \<open>\<open>fs.symlink(src, tgt)\<close>: fails when an entry is at \<open>tgt\<close> (\<open>EEXIST\<close>) or its parent
  is no directory.\<close>

definition symlink :: "filesystem \<Rightarrow> path \<Rightarrow> path \<Rightarrow> filesystem option" where
  "symlink fs src tgt =
     (if lookup fs tgt \<noteq> None then None
      else if \<not> is_dir fs (butlast tgt) then None
      else Some (fs(tgt \<mapsto> Symlink src)))"

text \<open>\<open>fs.mkdir(p, { recursive: true })\<close>: creates the missing directories along the path
  (the first argument is the part already walked); fails at an entry that is no directory.\<close>

fun mkdir_p :: "path \<Rightarrow> filesystem \<Rightarrow> path \<Rightarrow> bool \<times> filesystem" where
  "mkdir_p cur fs [] = (True, fs)"
| "mkdir_p cur fs (c # cs) =
     (case lookup fs (cur @ [c]) of
        None \<Rightarrow> mkdir_p (cur @ [c]) (fs(cur @ [c] \<mapsto> Dir)) cs
      | Some Dir \<Rightarrow> mkdir_p (cur @ [c]) fs cs
      | Some nd \<Rightarrow> (False, fs))"

definition mkdir :: "filesystem \<Rightarrow> path \<Rightarrow> bool \<times> filesystem" where
  "mkdir fs p = mkdir_p [] fs p"

definition readFile :: "filesystem \<Rightarrow> path \<Rightarrow> content option" where
  "readFile fs p = (case stat fs p of Some (q, File c) \<Rightarrow> Some c | _ \<Rightarrow> None)"

text \<open>\<open>fs.writeFile(p, c)\<close>: follows symbolic links to the file it overwrites or creates;
  fails on a directory and when the parent of a new file is no directory.\<close>

fun write_target :: "nat \<Rightarrow> filesystem \<Rightarrow> path \<Rightarrow> path option" where
  "write_target 0 fs p =
     (case lookup fs p of
        None \<Rightarrow> (if is_dir fs (butlast p) then Some p else None)
      | Some (Symlink t) \<Rightarrow> None
      | Some Dir \<Rightarrow> None
      | Some (File c) \<Rightarrow> Some p)"
| "write_target (Suc n) fs p =
     (case lookup fs p of
        None \<Rightarrow> (if is_dir fs (butlast p) then Some p else None)
      | Some (Symlink t) \<Rightarrow> write_target n fs t
      | Some Dir \<Rightarrow> None
      | Some (File c) \<Rightarrow> Some p)"

definition writeFile :: "filesystem \<Rightarrow> path \<Rightarrow> content \<Rightarrow> filesystem option" where
  "writeFile fs p c =
     (case write_target 40 fs p of None \<Rightarrow> None | Some q \<Rightarrow> Some (fs(q \<mapsto> File c)))"


definition readJson :: "filesystem \<Rightarrow> path \<Rightarrow> json_value" where
  \<comment> \<open>\<open>null\<close> (here \<open>Falsy\<close>) when reading or parsing throws\<close>
  "readJson fs p = (case readFile fs p of Some (Json v) \<Rightarrow> v | _ \<Rightarrow> Falsy)"

definition writeJson :: "filesystem \<Rightarrow> path \<Rightarrow> ProfileConfig \<Rightarrow> filesystem option" where
  \<comment> \<open>the text \<open>JSON.stringify\<close> produces parses back to the object written\<close>
  "writeJson fs p d = writeFile fs p (Json (Config d))"

section \<open>Link manager (core/symlinks.ts)\<close>

text \<open>
  Every operation takes the file system and returns its outcome together with the file
  system it leaves behind, also when it throws: \<open>Inl\<close> is the error thrown.
\<close>

definition source_of :: "env \<Rightarrow> SharedItem \<Rightarrow> path" where
  "source_of e item = join (mainConfig e) (item_name item)"

definition target_of :: "path \<Rightarrow> SharedItem \<Rightarrow> path" where
  "target_of profilePath item = join profilePath (item_name item)"

fun createSymlinks_loop ::
  "env \<Rightarrow> path \<Rightarrow> SharedItem list \<Rightarrow> SymlinkTarget list \<Rightarrow> filesystem
     \<Rightarrow> (error + SymlinkTarget list) \<times> filesystem" where
  "createSymlinks_loop e pp [] created fs = (Inr created, fs)"
| "createSymlinks_loop e pp (item # items) created fs =
     (if \<not> existsSync fs (source_of e item) then
        (if item_required item then (Inl (RequiredFileNotFound (source_of e item)), fs)
         else createSymlinks_loop e pp items created fs)
      else if existsSync fs (target_of pp item) \<and> isSymbolicLink fs (target_of pp item) then
        createSymlinks_loop e pp items created fs
      else
        (case symlink (if existsSync fs (target_of pp item) then rm_rf fs (target_of pp item) else fs)
                (source_of e item) (target_of pp item) of
           None \<Rightarrow>
             (Inl IOError, if existsSync fs (target_of pp item) then rm_rf fs (target_of pp item) else fs)
         | Some fs' \<Rightarrow>
             createSymlinks_loop e pp items
               (created @ [\<lparr>link_source = source_of e item, link_target = target_of pp item,
                             link_type = item_type item, link_required = item_required item\<rparr>])
               fs'))"

definition createSymlinks ::
  "env \<Rightarrow> string \<Rightarrow> filesystem \<Rightarrow> (error + SymlinkTarget list) \<times> filesystem" where
  "createSymlinks e profileName fs =
     createSymlinks_loop e (getProfilePath e profileName) sharedItems [] fs"

fun removeSymlinks_loop ::
  "path \<Rightarrow> SharedItem list \<Rightarrow> filesystem \<Rightarrow> (error + unit) \<times> filesystem" where
  "removeSymlinks_loop pp [] fs = (Inr (), fs)"
| "removeSymlinks_loop pp (item # items) fs =
     (if existsSync fs (target_of pp item) \<and> isSymbolicLink fs (target_of pp item) then
        (case unlink fs (target_of pp item) of
           None \<Rightarrow> (Inl IOError, fs)
         | Some fs' \<Rightarrow> removeSymlinks_loop pp items fs')
      else removeSymlinks_loop pp items fs)"

definition removeSymlinks :: "env \<Rightarrow> string \<Rightarrow> filesystem \<Rightarrow> (error + unit) \<times> filesystem" where
  "removeSymlinks e profileName fs =
     removeSymlinks_loop (getProfilePath e profileName) sharedItems fs"

record SymlinkStatus =
  status_name :: string
  status_exists :: bool
  status_isSymlink :: bool
  status_targetExists :: bool

definition item_status :: "filesystem \<Rightarrow> path \<Rightarrow> SharedItem \<Rightarrow> SymlinkStatus" where
  "item_status fs pp item =
     \<lparr>status_name = item_name item,
      status_exists = existsSync fs (target_of pp item),
      status_isSymlink =
        (if existsSync fs (target_of pp item) then isSymbolicLink fs (target_of pp item) else False),
      status_targetExists =
        (if existsSync fs (target_of pp item) then
           (if isSymbolicLink fs (target_of pp item) then stat fs (target_of pp item) \<noteq> None
            else False)
         else False)\<rparr>"

definition getSymlinkStatus :: "env \<Rightarrow> string \<Rightarrow> filesystem \<Rightarrow> SymlinkStatus list" where
  "getSymlinkStatus e profileName fs =
     map (item_status fs (getProfilePath e profileName)) sharedItems"


text \<open>The entries that \<open>follow\<close> looks up on its way from a path.\<close>

fun visited :: "nat \<Rightarrow> filesystem \<Rightarrow> path \<Rightarrow> path list" where
  "visited 0 fs p = [p]"
| "visited (Suc n) fs p =
     p # (case lookup fs p of Some (Symlink t) \<Rightarrow> visited n fs t | _ \<Rightarrow> [])"

text \<open>
  The shared items whose target \<open>createSymlinks\<close> replaces by a link: the source exists
  and the target is not a symbolic link that resolves. An entry is clobbered when it is at
  or below such a target.
\<close>

definition replaced :: "env \<Rightarrow> path \<Rightarrow> filesystem \<Rightarrow> SharedItem \<Rightarrow> bool" where
  "replaced e pp fs item =
     (existsSync fs (source_of e item)
      \<and> \<not> (existsSync fs (target_of pp item) \<and> isSymbolicLink fs (target_of pp item)))"

definition clobbered :: "env \<Rightarrow> path \<Rightarrow> filesystem \<Rightarrow> path \<Rightarrow> bool" where
  "clobbered e pp fs k =
     list_ex (\<lambda>item. replaced e pp fs item \<and> prefix (target_of pp item) k) sharedItems"

text \<open>
  No shared source is resolved through a clobbered entry, a source whose target is
  replaced resolves with one link to spare, and no symbolic link that is already at the
  target of an existing source is resolved through a clobbered entry.
\<close>

definition undisturbed :: "env \<Rightarrow> path \<Rightarrow> filesystem \<Rightarrow> bool" where
  "undisturbed e pp fs =
     list_all (\<lambda>item.
        list_all (\<lambda>k. \<not> clobbered e pp fs k) (visited 40 fs (source_of e item))
        \<and> (replaced e pp fs item \<longrightarrow> follow 39 fs (source_of e item) \<noteq> None)
        \<and> (existsSync fs (source_of e item) \<longrightarrow>
             (case lookup fs (target_of pp item) of
                Some (Symlink t) \<Rightarrow> list_all (\<lambda>k. \<not> clobbered e pp fs k) (visited 39 fs t)
              | _ \<Rightarrow> True)))
       sharedItems"


section \<open>Profile registry (core/profile.ts)\<close>

definition emptyConfig :: ProfileConfig where
  "emptyConfig = \<lparr>profiles = [], defaultProfile = None, version = ''1.0.0''\<rparr>"

definition loadProfilesConfig :: "env \<Rightarrow> filesystem \<Rightarrow> json_value" where
  \<comment> \<open>\<open>config || { profiles: {}, version: '1.0.0' }\<close>\<close>
  "loadProfilesConfig e fs =
     (case readJson fs (profilesConfig e) of Falsy \<Rightarrow> Config emptyConfig | v \<Rightarrow> v)"

text \<open>\<open>obj[k] = v\<close> and \<open>delete obj[k]\<close> on the entries of an object.\<close>

fun assign :: "string \<Rightarrow> 'v \<Rightarrow> (string \<times> 'v) list \<Rightarrow> (string \<times> 'v) list" where
  "assign k v [] = [(k, v)]"
| "assign k v (kv # kvs) = (if fst kv = k then (k, v) # kvs else kv # assign k v kvs)"

definition delete_key :: "string \<Rightarrow> (string \<times> 'v) list \<Rightarrow> (string \<times> 'v) list" where
  "delete_key k kvs = filter (\<lambda>kv. fst kv \<noteq> k) kvs"

text \<open>A configuration without a \<open>profiles\<close> mapping makes \<open>config.profiles[name]\<close> and
  \<open>Object.entries(config.profiles)\<close> throw a \<open>TypeError\<close>. The time is the clock reading
  of \<open>new Date()\<close>.\<close>

definition saveProfileMetadata ::
  "env \<Rightarrow> int \<Rightarrow> string \<Rightarrow> filesystem \<Rightarrow> (error + unit) \<times> filesystem" where
  "saveProfileMetadata e now nm fs =
     (case loadProfilesConfig e fs of
        Config c \<Rightarrow>
          (case writeJson fs (profilesConfig e)
                  (c\<lparr>profiles :=
                       assign nm \<lparr>meta_name = nm, meta_createdAt = Some now, meta_shellAlias = nm\<rparr>
                         (profiles c)\<rparr>) of
             None \<Rightarrow> (Inl IOError, fs)
           | Some fs' \<Rightarrow> (Inr (), fs'))
      | other \<Rightarrow> (Inl TypeError, fs))"

definition removeProfileMetadata ::
  "env \<Rightarrow> string \<Rightarrow> filesystem \<Rightarrow> (error + unit) \<times> filesystem" where
  "removeProfileMetadata e nm fs =
     (case loadProfilesConfig e fs of
        Config c \<Rightarrow>
          (case writeJson fs (profilesConfig e) (c\<lparr>profiles := delete_key nm (profiles c)\<rparr>) of
             None \<Rightarrow> (Inl IOError, fs)
           | Some fs' \<Rightarrow> (Inr (), fs'))
      | other \<Rightarrow> (Inl TypeError, fs))"

text \<open>\<open>createProfile\<close> reads the clock twice: for the metadata record and for the view
  it returns.\<close>

definition createProfile ::
  "env \<Rightarrow> int \<Rightarrow> int \<Rightarrow> string \<Rightarrow> filesystem \<Rightarrow> (error + Profile) \<times> filesystem" where
  "createProfile e now1 now2 nm fs =
     (if \<not> isValidProfileName nm then (Inl InvalidName, fs)
      else if existsSync fs (getProfilePath e nm) then (Inl (AlreadyExists nm), fs)
      else if \<not> existsSync fs (mainConfig e) then (Inl NotConfigured, fs)
      else
        (case mkdir fs (getProfilePath e nm) of
           (False, fs1) \<Rightarrow> (Inl IOError, fs1)
         | (True, fs1) \<Rightarrow>
             (case createSymlinks e nm fs1 of
                (Inl err, fs2) \<Rightarrow> (Inl err, fs2)
              | (Inr created, fs2) \<Rightarrow>
                  (case saveProfileMetadata e now1 nm fs2 of
                     (Inl err, fs3) \<Rightarrow> (Inl err, fs3)
                   | (Inr u, fs3) \<Rightarrow>
                       (Inr \<lparr>profile_name = nm,
                             profile_path = getProfilePath e nm,
                             configPath = getProfilePath e nm,
                             credentialsPath = getProfileCredentialsPath e nm,
                             isAuthenticated = existsSync fs3 (getProfileCredentialsPath e nm),
                             createdAt = Some now2\<rparr>,
                        fs3)))))"

text \<open>
  \<open>b.createdAt.getTime() - a.createdAt.getTime()\<close> is \<open>NaN\<close> (here \<open>None\<close>) when one of the
  dates is invalid. \<open>Array.prototype.sort\<close> takes a comparator result \<open>NaN\<close> as \<open>+0\<close>. It
  is stable, and with a comparator that is a consistent order it returns what this
  insertion sort returns; for a comparator that is not, the language leaves the order to
  the implementation, and the model is this insertion sort.
\<close>

definition time_diff :: "date \<Rightarrow> date \<Rightarrow> int option" where
  "time_diff x y = (case (x, y) of (Some s, Some t) \<Rightarrow> Some (s - t) | _ \<Rightarrow> None)"

definition sort_order :: "int option \<Rightarrow> int" where
  "sort_order v = (case v of None \<Rightarrow> 0 | Some n \<Rightarrow> n)"

fun insert_by :: "('a \<Rightarrow> 'a \<Rightarrow> int option) \<Rightarrow> 'a \<Rightarrow> 'a list \<Rightarrow> 'a list" where
  "insert_by cmp x [] = [x]"
| "insert_by cmp x (y # ys) =
     (if sort_order (cmp x y) \<le> 0 then x # y # ys else y # insert_by cmp x ys)"

definition sort_by :: "('a \<Rightarrow> 'a \<Rightarrow> int option) \<Rightarrow> 'a list \<Rightarrow> 'a list" where
  "sort_by cmp xs = foldr (insert_by cmp) xs []"

fun listProfiles_loop ::
  "env \<Rightarrow> filesystem \<Rightarrow> (string \<times> ProfileMetadata) list \<Rightarrow> Profile list \<Rightarrow> Profile list" where
  "listProfiles_loop e fs [] acc = acc"
| "listProfiles_loop e fs ((nm, metadata) # rest) acc =
     (if existsSync fs (getProfilePath e nm) then
        listProfiles_loop e fs rest
          (acc @ [\<lparr>profile_name = nm,
                   profile_path = getProfilePath e nm,
                   configPath = getProfilePath e nm,
                   credentialsPath = getProfileCredentialsPath e nm,
                   isAuthenticated = existsSync fs (getProfileCredentialsPath e nm),
                   createdAt = meta_createdAt metadata\<rparr>])
      else listProfiles_loop e fs rest acc)"

definition listProfiles :: "env \<Rightarrow> filesystem \<Rightarrow> (error + Profile list) \<times> filesystem" where
  "listProfiles e fs =
     (case loadProfilesConfig e fs of
        Config c \<Rightarrow>
          (Inr (sort_by (\<lambda>a b. time_diff (createdAt b) (createdAt a))
                  (listProfiles_loop e fs (profiles c) [])),
           fs)
      | other \<Rightarrow> (Inl TypeError, fs))"

definition removeProfile :: "env \<Rightarrow> string \<Rightarrow> filesystem \<Rightarrow> (error + unit) \<times> filesystem" where
  "removeProfile e nm fs =
     (if \<not> existsSync fs (getProfilePath e nm) then (Inl (DoesNotExist nm), fs)
      else
        (case removeSymlinks e nm fs of
           (Inl err, fs1) \<Rightarrow> (Inl err, fs1)
         | (Inr u, fs1) \<Rightarrow>
             (if existsSync (rm_rf fs1 (getProfilePath e nm)) (getProfileCredentialsPath e nm) then
                (case rm_plain (rm_rf fs1 (getProfilePath e nm)) (getProfileCredentialsPath e nm) of
                   None \<Rightarrow> (Inl IOError, rm_rf fs1 (getProfilePath e nm))
                 | Some fs3 \<Rightarrow> removeProfileMetadata e nm fs3)
              else removeProfileMetadata e nm (rm_rf fs1 (getProfilePath e nm)))))"

definition profileExists :: "env \<Rightarrow> string \<Rightarrow> filesystem \<Rightarrow> bool" where
  "profileExists e nm fs = existsSync fs (getProfilePath e nm)"

section \<open>Launcher generator (core/shell.ts)\<close>

datatype shell_type = zsh | bash | fish | unknown

record ShellConfig =
  shell_type :: shell_type
  rcFile :: path
  aliasFormat :: string

text \<open>\<open>String.prototype.includes\<close>, and \<open>Array.prototype.join\<close> on strings.\<close>

fun str_includes :: "string \<Rightarrow> string \<Rightarrow> bool" where
  "str_includes [] sub = (sub = [])"
| "str_includes (c # cs) sub = (prefix sub (c # cs) \<or> str_includes cs sub)"

fun join_with :: "string \<Rightarrow> string list \<Rightarrow> string" where
  "join_with sep [] = []"
| "join_with sep [x] = x"
| "join_with sep (x # y # ys) = x @ sep @ join_with sep (y # ys)"

text \<open>\<open>String.prototype.trimEnd\<close> removes white space and line terminators from the end;
  among the characters below 256 these are tab, line feed, vertical tab, form feed,
  carriage return, space and the no-break space.\<close>

definition is_space :: "char \<Rightarrow> bool" where
  "is_space c = ((of_char c :: nat) \<in> {9, 10, 11, 12, 13, 32, 160})"

definition trimEnd :: "string \<Rightarrow> string" where
  "trimEnd s = rev (dropWhile is_space (rev s))"

definition nl :: string where
  "nl = [CHR 0x0A]"

definition dq :: string where
  "dq = [CHR 0x22]"

definition ALIASES_FILE :: "env \<Rightarrow> path" where
  "ALIASES_FILE e = join (HOME e) ''.cc-profiles-aliases.sh''"

definition INTEGRATION_MARKER :: string where
  "INTEGRATION_MARKER = ''# cc-profiles shell integration''"

definition detectShell :: "env \<Rightarrow> filesystem \<Rightarrow> ShellConfig" where
  "detectShell e fs =
     (if str_includes (SHELL e) ''zsh'' then
        \<lparr>shell_type = zsh, rcFile = join (HOME e) ''.zshrc'', aliasFormat = ''function''\<rparr>
      else if str_includes (SHELL e) ''bash'' then
        \<lparr>shell_type = bash,
         rcFile = (if existsSync fs (join (HOME e) ''.bash_profile'')
                   then join (HOME e) ''.bash_profile'' else join (HOME e) ''.bashrc''),
         aliasFormat = ''function''\<rparr>
      else if str_includes (SHELL e) ''fish'' then
        \<lparr>shell_type = fish, rcFile = join (HOME e) ''.config/fish/config.fish'',
         aliasFormat = ''function''\<rparr>
      else
        \<lparr>shell_type = unknown, rcFile = join (HOME e) ''.bashrc'', aliasFormat = ''function''\<rparr>)"

definition getAliasesFilePath :: "env \<Rightarrow> filesystem \<Rightarrow> path" where
  "getAliasesFilePath e fs =
     (if shell_type (detectShell e fs) = fish
      then join (HOME e) ''.config/fish/functions/cc-profiles.fish''
      else join (HOME e) ''.cc-profiles-aliases.sh'')"

text \<open>
  The characters of a file read as text. The characters of a file that holds a JSON
  document are not part of the model; the functions that read a shell file as text take
  them as the parameter \<open>render\<close>.
\<close>

definition chars :: "(json_value \<Rightarrow> string) \<Rightarrow> content \<Rightarrow> string" where
  "chars render c = (case c of Text s \<Rightarrow> s | Json v \<Rightarrow> render v)"

definition isShellIntegrated ::
  "env \<Rightarrow> (json_value \<Rightarrow> string) \<Rightarrow> filesystem \<Rightarrow> error + bool" where
  "isShellIntegrated e render fs =
     (if shell_type (detectShell e fs) = fish then Inr True
      else if \<not> existsSync fs (rcFile (detectShell e fs)) then Inr False
      else
        (case readFile fs (rcFile (detectShell e fs)) of
           None \<Rightarrow> Inl IOError
         | Some c \<Rightarrow> Inr (str_includes (chars render c) INTEGRATION_MARKER)))"

definition integrationLine :: string where
  "integrationLine =
     INTEGRATION_MARKER @ nl @
     ''[ -f ~/.cc-profiles-aliases.sh ] && source ~/.cc-profiles-aliases.sh''"

record SetupResult =
  success :: bool
  result_rcFile :: path

definition setupShellIntegration ::
  "env \<Rightarrow> (json_value \<Rightarrow> string) \<Rightarrow> filesystem \<Rightarrow> (error + SetupResult) \<times> filesystem" where
  "setupShellIntegration e render fs =
     (if shell_type (detectShell e fs) = fish then
        (Inr \<lparr>success = True, result_rcFile = rcFile (detectShell e fs)\<rparr>, fs)
      else
        (case isShellIntegrated e render fs of
           Inl err \<Rightarrow> (Inl err, fs)
         | Inr True \<Rightarrow> (Inr \<lparr>success = True, result_rcFile = rcFile (detectShell e fs)\<rparr>, fs)
         | Inr False \<Rightarrow>
             (case (if existsSync fs (rcFile (detectShell e fs))
                    then map_option (chars render) (readFile fs (rcFile (detectShell e fs)))
                    else Some []) of
                None \<Rightarrow> (Inl IOError, fs)
              | Some content \<Rightarrow>
                  (case writeFile fs (rcFile (detectShell e fs))
                          (Text (trimEnd content @ nl @ nl @ integrationLine @ nl)) of
                     None \<Rightarrow> (Inl IOError, fs)
                   | Some fs' \<Rightarrow>
                       (Inr \<lparr>success = True, result_rcFile = rcFile (detectShell e fs)\<rparr>, fs')))))"

text \<open>The templates of \<open>regenerateAliasesFile\<close>; \<open>stamp\<close> is \<open>new Date().toISOString()\<close>.\<close>

definition fish_header :: "string \<Rightarrow> string" where
  "fish_header stamp =
     ''# Auto-generated by cc-profiles - DO NOT EDIT MANUALLY'' @ nl @
     ''# This file is regenerated when profiles are created/removed'' @ nl @
     ''# Generated: '' @ stamp @ nl @ nl"

definition fish_function :: "string \<Rightarrow> string" where
  "fish_function nm =
     ''function '' @ nm @ nl @
     ''    set -x CLAUDE_CONFIG_DIR '' @ dq @ ''$HOME/.claude-'' @ nm @ dq @ nl @
     ''    command claude $argv'' @ nl @
     ''end''"

definition echo_line :: "string \<Rightarrow> string" where
  "echo_line nm = ''    echo '' @ dq @ ''  '' @ nm @ dq"

definition fish_listFunction :: "string list \<Rightarrow> string" where
  "fish_listFunction profileNames =
     nl @ ''function cc-list'' @ nl @
     ''    echo '' @ dq @ ''Available Claude Code profiles:'' @ dq @ nl @
     join_with nl (map echo_line profileNames) @ nl @
     ''    echo '' @ dq @ dq @ nl @
     ''    echo '' @ dq @ ''Run any profile name as a command to start Claude with that profile.''
       @ dq @ nl @
     ''end''"

definition bash_header :: "string \<Rightarrow> string" where
  "bash_header stamp =
     ''#!/bin/bash'' @ nl @
     ''# Auto-generated by cc-profiles - DO NOT EDIT MANUALLY'' @ nl @
     ''# This file is regenerated when profiles are created/removed'' @ nl @
     ''# Generated: '' @ stamp @ nl @ nl"

definition bash_function :: "string \<Rightarrow> string" where
  "bash_function nm =
     nm @ ''() {'' @ nl @
     ''    CLAUDE_CONFIG_DIR='' @ dq @ ''$HOME/.claude-'' @ nm @ dq @ '' command claude '' @
       dq @ ''$@'' @ dq @ nl @
     ''}''"

definition bash_listFunction :: "string list \<Rightarrow> string" where
  "bash_listFunction profileNames =
     nl @ ''# List all available profiles'' @ nl @
     ''cc-list() {'' @ nl @
     ''    echo '' @ dq @ ''Available Claude Code profiles:'' @ dq @ nl @
     join_with nl (map echo_line profileNames) @ nl @
     ''    echo '' @ dq @ dq @ nl @
     ''    echo '' @ dq @ ''Run any profile name as a command to start Claude with that profile.''
       @ dq @ nl @
     ''}''"

definition aliases_content :: "shell_type \<Rightarrow> string \<Rightarrow> string list \<Rightarrow> string" where
  "aliases_content sh stamp profileNames =
     (if sh = fish then
        fish_header stamp @ join_with (nl @ nl) (map fish_function profileNames) @ nl @
        fish_listFunction profileNames @ nl
      else
        bash_header stamp @ join_with (nl @ nl) (map bash_function profileNames) @ nl @
        bash_listFunction profileNames @ nl)"

definition regenerateAliasesFile ::
  "env \<Rightarrow> string \<Rightarrow> string list \<Rightarrow> filesystem \<Rightarrow> (error + unit) \<times> filesystem" where
  "regenerateAliasesFile e stamp profileNames fs =
     (if profileNames = [] then
        (if existsSync fs (getAliasesFilePath e fs) then
           (case rm_plain fs (getAliasesFilePath e fs) of
              None \<Rightarrow> (Inl IOError, fs)
            | Some fs' \<Rightarrow> (Inr (), fs'))
         else (Inr (), fs))
      else
        (case (if shell_type (detectShell e fs) = fish
               then mkdir fs (join (HOME e) ''.config/fish/functions'') else (True, fs)) of
           (False, fs1) \<Rightarrow> (Inl IOError, fs1)
         | (True, fs1) \<Rightarrow>
             (case writeFile fs1 (getAliasesFilePath e fs)
                     (Text (aliases_content (shell_type (detectShell e fs)) stamp profileNames)) of
                None \<Rightarrow> (Inl IOError, fs1)
              | Some fs' \<Rightarrow> (Inr (), fs'))))"

text \<open>The lines of a text: \<open>text.split('\n')\<close>.\<close>

fun split_lines :: "string \<Rightarrow> string list" where
  "split_lines [] = [[]]"
| "split_lines (c # cs) =
     (if c = CHR 0x0A then [] # split_lines cs
      else (c # hd (split_lines cs)) # tl (split_lines cs))"

text \<open>Groups of lines with an empty line between two groups.\<close>

fun block_lines :: "(string \<Rightarrow> string list) \<Rightarrow> string list \<Rightarrow> string list" where
  "block_lines f [] = []"
| "block_lines f [n] = f n"
| "block_lines f (n # m # ms) = f n @ [[]] @ block_lines f (m # ms)"

text \<open>The lines of the two templates.\<close>

definition bash_block :: "string \<Rightarrow> string list" where
  "bash_block n =
     [n @ ''() {'',
      ''    CLAUDE_CONFIG_DIR='' @ dq @ ''$HOME/.claude-'' @ n @ dq @ '' command claude '' @
        dq @ ''$@'' @ dq,
      ''}'']"

definition bash_lines :: "string \<Rightarrow> string list \<Rightarrow> string list" where
  "bash_lines stamp profileNames =
     [''#!/bin/bash'',
      ''# Auto-generated by cc-profiles - DO NOT EDIT MANUALLY'',
      ''# This file is regenerated when profiles are created/removed'',
      ''# Generated: '' @ stamp,
      []] @
     block_lines bash_block profileNames @
     [[], ''# List all available profiles'', ''cc-list() {'',
      ''    echo '' @ dq @ ''Available Claude Code profiles:'' @ dq] @
     map echo_line profileNames @
     [''    echo '' @ dq @ dq,
      ''    echo '' @ dq @
        ''Run any profile name as a command to start Claude with that profile.'' @ dq,
      ''}'', []]"

definition fish_block :: "string \<Rightarrow> string list" where
  "fish_block n =
     [''function '' @ n,
      ''    set -x CLAUDE_CONFIG_DIR '' @ dq @ ''$HOME/.claude-'' @ n @ dq,
      ''    command claude $argv'',
      ''end'']"

definition fish_lines :: "string \<Rightarrow> string list \<Rightarrow> string list" where
  "fish_lines stamp profileNames =
     [''# Auto-generated by cc-profiles - DO NOT EDIT MANUALLY'',
      ''# This file is regenerated when profiles are created/removed'',
      ''# Generated: '' @ stamp,
      []] @
     block_lines fish_block profileNames @
     [[], ''function cc-list'',
      ''    echo '' @ dq @ ''Available Claude Code profiles:'' @ dq] @
     map echo_line profileNames @
     [''    echo '' @ dq @ dq,
      ''    echo '' @ dq @
        ''Run any profile name as a command to start Claude with that profile.'' @ dq,
      ''end'', []]"

section \<open>Example states\<close>

definition ex_env :: env where
  "ex_env = \<lparr>HOME = [''home'', ''u''], SHELL = ''/bin/zsh''\<rparr>"

definition broken_fs :: filesystem where
  "broken_fs =
     [[''home''] \<mapsto> Dir,
      [''home'', ''u''] \<mapsto> Dir,
      [''home'', ''u'', ''.claude-work''] \<mapsto> Dir,
      [''home'', ''u'', ''.claude-work'', ''settings.json''] \<mapsto>
        Symlink [''home'', ''u'', ''.claude'', ''settings.json'']]"

definition stale_config :: ProfileConfig where
  "stale_config =
     \<lparr>profiles =
        [(''work'', \<lparr>meta_name = ''work'', meta_createdAt = Some 1000, meta_shellAlias = ''work''\<rparr>),
         (''personal'',
            \<lparr>meta_name = ''personal'', meta_createdAt = Some 2000, meta_shellAlias = ''personal''\<rparr>),
         (''lab'', \<lparr>meta_name = ''lab'', meta_createdAt = Some 3000, meta_shellAlias = ''lab''\<rparr>)],
      defaultProfile = None, version = ''1.0.0''\<rparr>"

definition stale_fs :: filesystem where
  "stale_fs =
     [[''home''] \<mapsto> Dir,
      [''home'', ''u''] \<mapsto> Dir,
      [''home'', ''u'', ''.cc-profiles.json''] \<mapsto> File (Json (Config stale_config)),
      [''home'', ''u'', ''.claude-personal''] \<mapsto> Dir,
      [''home'', ''u'', ''.claude-lab''] \<mapsto> Dir]"

definition malformed_fs :: filesystem where
  "malformed_fs =
     [[''home''] \<mapsto> Dir,
      [''home'', ''u''] \<mapsto> Dir,
      [''home'', ''u'', ''.cc-profiles.json''] \<mapsto> File (Text ''{ profiles: '')]"

definition trailing_fs :: filesystem where
  "trailing_fs =
     [[''home''] \<mapsto> Dir,
      [''home'', ''u''] \<mapsto> Dir,
      [''home'', ''u'', ''.zshrc''] \<mapsto> File (Text ''PS1=x '')]"

definition integrated_fs :: filesystem where
  "integrated_fs =
     [[''home''] \<mapsto> Dir,
      [''home'', ''u''] \<mapsto> Dir,
      [''home'', ''u'', ''.zshrc''] \<mapsto>
        File (Text (''PS1=x'' @ nl @ nl @ integrationLine @ nl))]"

definition prior_fs :: filesystem where
  "prior_fs =
     [[''home''] \<mapsto> Dir,
      [''home'', ''u''] \<mapsto> Dir,
      [''home'', ''u'', ''.cc-profiles-aliases.sh''] \<mapsto> File (Text ''old() { claude; }'')]"

definition two_profiles_text :: string where
  \<open>two_profiles_text =
     ''#!/bin/bash\<newline>'' @
     ''# Auto-generated by cc-profiles - DO NOT EDIT MANUALLY\<newline>'' @
     ''# This file is regenerated when profiles are created/removed\<newline>'' @
     ''# Generated: 2024-01-01T00:00:00.000Z\<newline>'' @
     ''\<newline>'' @
     ''work() {\<newline>'' @
     ''    CLAUDE_CONFIG_DIR="$HOME/.claude-work" command claude "$@"\<newline>'' @
     ''}\<newline>'' @
     ''\<newline>'' @
     ''personal() {\<newline>'' @
     ''    CLAUDE_CONFIG_DIR="$HOME/.claude-personal" command claude "$@"\<newline>'' @
     ''}\<newline>'' @
     ''\<newline>'' @
     ''# List all available profiles\<newline>'' @
     ''cc-list() {\<newline>'' @
     ''    echo "Available Claude Code profiles:"\<newline>'' @
     ''    echo "  work"\<newline>'' @
     ''    echo "  personal"\<newline>'' @
     ''    echo ""\<newline>'' @
     ''    echo "Run any profile name as a command to start Claude with that profile."\<newline>'' @
     ''}\<newline>''\<close>

definition one_profile_text :: string where
  \<open>one_profile_text =
     ''#!/bin/bash\<newline>'' @
     ''# Auto-generated by cc-profiles - DO NOT EDIT MANUALLY\<newline>'' @
     ''# This file is regenerated when profiles are created/removed\<newline>'' @
     ''# Generated: 2024-02-02T00:00:00.000Z\<newline>'' @
     ''\<newline>'' @
     ''work() {\<newline>'' @
     ''    CLAUDE_CONFIG_DIR="$HOME/.claude-work" command claude "$@"\<newline>'' @
     ''}\<newline>'' @
     ''\<newline>'' @
     ''# List all available profiles\<newline>'' @
     ''cc-list() {\<newline>'' @
     ''    echo "Available Claude Code profiles:"\<newline>'' @
     ''    echo "  work"\<newline>'' @
     ''    echo ""\<newline>'' @
     ''    echo "Run any profile name as a command to start Claude with that profile."\<newline>'' @
     ''}\<newline>''\<close>

definition nosettings_fs :: filesystem where
  "nosettings_fs =
     [[''home''] \<mapsto> Dir,
      [''home'', ''u''] \<mapsto> Dir,
      [''home'', ''u'', ''.claude''] \<mapsto> Dir,
      [''home'', ''u'', ''.cc-profiles.json''] \<mapsto> File (Json (Config stale_config))]"

definition existing_fs :: filesystem where
  "existing_fs =
     [[''home''] \<mapsto> Dir,
      [''home'', ''u''] \<mapsto> Dir,
      [''home'', ''u'', ''.claude''] \<mapsto> Dir,
      [''home'', ''u'', ''.claude-work''] \<mapsto> Dir]"

definition clean_fs :: filesystem where
  "clean_fs =
     [[''home''] \<mapsto> Dir,
      [''home'', ''u''] \<mapsto> Dir,
      [''home'', ''u'', ''.claude''] \<mapsto> Dir,
      [''home'', ''u'', ''.claude'', ''settings.json''] \<mapsto> File (Json Shapeless)]"

definition leftover_fs :: filesystem where
  "leftover_fs = clean_fs([''home'', ''u'', ''.claude-work.json''] \<mapsto> File (Json Shapeless))"

definition work_profile :: "bool \<Rightarrow> Profile" where
  "work_profile auth =
     \<lparr>profile_name = ''work'',
      profile_path = [''home'', ''u'', ''.claude-work''],
      configPath = [''home'', ''u'', ''.claude-work''],
      credentialsPath = [''home'', ''u'', ''.claude-work.json''],
      isAuthenticated = auth,
      createdAt = Some 5001\<rparr>"

definition shared_fs :: filesystem where
  "shared_fs =
     [[''home''] \<mapsto> Dir,
      [''home'', ''u''] \<mapsto> Dir,
      [''home'', ''u'', ''.claude.json''] \<mapsto> File (Json Shapeless),
      [''home'', ''u'', ''.claude''] \<mapsto> Dir,
      [''home'', ''u'', ''.claude'', ''settings.json''] \<mapsto> File (Json Shapeless),
      [''home'', ''u'', ''.claude'', ''agents''] \<mapsto> Dir,
      [''home'', ''u'', ''.claude'', ''agents'', ''helper.md''] \<mapsto> File (Text ''# helper''),
      [''home'', ''u'', ''.claude-personal''] \<mapsto> Dir,
      [''home'', ''u'', ''.claude-lab''] \<mapsto> Dir,
      [''home'', ''u'', ''.cc-profiles.json''] \<mapsto> File (Json (Config stale_config))]"

definition dotfiles_fs :: filesystem where
  "dotfiles_fs =
     [[''home''] \<mapsto> Dir,
      [''home'', ''u''] \<mapsto> Dir,
      [''home'', ''u'', ''dotfiles''] \<mapsto> Dir,
      [''home'', ''u'', ''dotfiles'', ''settings.json''] \<mapsto> File (Json Shapeless),
      [''home'', ''u'', ''.claude''] \<mapsto> Dir,
      [''home'', ''u'', ''.claude'', ''settings.json''] \<mapsto>
        Symlink [''home'', ''u'', ''dotfiles'', ''settings.json'']]"

definition linked_fs :: filesystem where
  "linked_fs =
     [[''home''] \<mapsto> Dir,
      [''home'', ''u''] \<mapsto> Dir,
      [''home'', ''u'', ''dotfiles''] \<mapsto> Dir,
      [''home'', ''u'', ''dotfiles'', ''settings.json''] \<mapsto> File (Json Shapeless),
      [''home'', ''u'', ''other.json''] \<mapsto> File (Json Shapeless),
      [''home'', ''u'', ''.claude''] \<mapsto> Dir,
      [''home'', ''u'', ''.claude'', ''settings.json''] \<mapsto>
        Symlink [''home'', ''u'', ''dotfiles'', ''settings.json''],
      [''home'', ''u'', ''.claude'', ''stats-cache.json''] \<mapsto> File (Json Shapeless),
      [''home'', ''u'', ''.claude'', ''agents''] \<mapsto> Dir,
      [''home'', ''u'', ''.claude-work''] \<mapsto> Dir,
      [''home'', ''u'', ''.claude-work'', ''stats-cache.json''] \<mapsto>
        Symlink [''home'', ''u'', ''other.json''],
      [''home'', ''u'', ''.claude-work'', ''agents''] \<mapsto> Dir,
      [''home'', ''u'', ''.claude-work'', ''agents'', ''local.md''] \<mapsto> File (Text ''# local'')]"

definition foreign_fs :: filesystem where
  "foreign_fs =
     [[''home''] \<mapsto> Dir,
      [''home'', ''u''] \<mapsto> Dir,
      [''home'', ''u'', ''.claude''] \<mapsto> Dir,
      [''home'', ''u'', ''.claude'', ''settings.json''] \<mapsto> File (Json Shapeless),
      [''home'', ''u'', ''.claude'', ''agents''] \<mapsto> Dir,
      [''home'', ''u'', ''.claude-work''] \<mapsto> Dir,
      [''home'', ''u'', ''.claude-work'', ''settings.json''] \<mapsto>
        Symlink [''home'', ''u'', ''.claude-work'', ''agents'', ''mine.json''],
      [''home'', ''u'', ''.claude-work'', ''agents''] \<mapsto> Dir,
      [''home'', ''u'', ''.claude-work'', ''agents'', ''mine.json''] \<mapsto> File (Json Shapeless)]"

text \<open>
  The shared \<open>settings.json\<close> is the first of forty symbolic links in a row: the entries
  \<open>~/chain/x\<close>, \<open>~/chain/xx\<close>, ... with up to 39 letters link to the next one, and the one
  with 40 letters is a file.
\<close>

definition chain_fs :: filesystem where
  "chain_fs p =
     (case p of
        [a, b, c, w] \<Rightarrow>
          if a = ''home'' \<and> b = ''u'' \<and> c = ''chain'' \<and> w \<noteq> [] \<and> list_all (\<lambda>x. x = CHR ''x'') w
          then (if length w < 40 then Some (Symlink [''home'', ''u'', ''chain'', CHR ''x'' # w])
                else if length w = 40 then Some (File (Json Shapeless)) else None)
          else [[''home'', ''u'', ''.claude'', ''settings.json''] \<mapsto>
                  Symlink [''home'', ''u'', ''chain'', ''x'']] p
      | _ \<Rightarrow>
          [[''home''] \<mapsto> Dir,
           [''home'', ''u''] \<mapsto> Dir,
           [''home'', ''u'', ''chain''] \<mapsto> Dir,
           [''home'', ''u'', ''.claude''] \<mapsto> Dir,
           [''home'', ''u'', ''.claude-work''] \<mapsto> Dir] p)"

definition looping_fs :: filesystem where
  "looping_fs =
     [[''home''] \<mapsto> Dir,
      [''home'', ''u''] \<mapsto> Dir,
      [''home'', ''u'', ''.claude''] \<mapsto> Dir,
      [''home'', ''u'', ''.claude'', ''settings.json''] \<mapsto>
        Symlink [''home'', ''u'', ''.claude-work'', ''settings.json''],
      [''home'', ''u'', ''.claude-work''] \<mapsto> Dir,
      [''home'', ''u'', ''.claude-work'', ''settings.json''] \<mapsto> File (Json Shapeless)]"

definition settings_link :: "path \<Rightarrow> SymlinkTarget" where
  "settings_link dir =
     \<lparr>link_source = [''home'', ''u'', ''.claude'', ''settings.json''],
      link_target = dir @ [''settings.json''],
      link_type = file_item, link_required = True\<rparr>"

definition agents_link :: "path \<Rightarrow> SymlinkTarget" where
  "agents_link dir =
     \<lparr>link_source = [''home'', ''u'', ''.claude'', ''agents''],
      link_target = dir @ [''agents''],
      link_type = directory_item, link_required = False\<rparr>"

definition shapeless_fs :: filesystem where
  "shapeless_fs =
     [[''home''] \<mapsto> Dir,
      [''home'', ''u''] \<mapsto> Dir,
      [''home'', ''u'', ''.cc-profiles.json''] \<mapsto> File (Json Shapeless)]"

definition falsy_fs :: filesystem where
  "falsy_fs =
     [[''home''] \<mapsto> Dir,
      [''home'', ''u''] \<mapsto> Dir,
      [''home'', ''u'', ''.cc-profiles.json''] \<mapsto> File (Json Falsy)]"

definition undated_config :: ProfileConfig where
  "undated_config =
     \<lparr>profiles =
        [(''work'', \<lparr>meta_name = ''work'', meta_createdAt = Some 500, meta_shellAlias = ''work''\<rparr>),
         (''old'', \<lparr>meta_name = ''old'', meta_createdAt = Some 1000, meta_shellAlias = ''old''\<rparr>),
         (''odd'', \<lparr>meta_name = ''odd'', meta_createdAt = None, meta_shellAlias = ''odd''\<rparr>),
         (''new'', \<lparr>meta_name = ''new'', meta_createdAt = Some 3000, meta_shellAlias = ''new''\<rparr>)],
      defaultProfile = None, version = ''1.0.0''\<rparr>"

definition undated_fs :: filesystem where
  "undated_fs =
     [[''home''] \<mapsto> Dir,
      [''home'', ''u''] \<mapsto> Dir,
      [''home'', ''u'', ''.cc-profiles.json''] \<mapsto> File (Json (Config undated_config)),
      [''home'', ''u'', ''.claude-old''] \<mapsto> Dir,
      [''home'', ''u'', ''.claude-odd''] \<mapsto> Dir,
      [''home'', ''u'', ''.claude-new''] \<mapsto> Dir]"

section \<open>Theorems\<close>

subsection \<open>Looking up paths\<close>

lemma follow_None [simp]: "lookup fs p = None \<Longrightarrow> follow n fs p = None"
  by (cases n) simp_all

lemma follow_Dir [simp]: "lookup fs p = Some Dir \<Longrightarrow> follow n fs p = Some (p, Dir)"
  by (cases n) simp_all

lemma follow_File [simp]:
  "lookup fs p = Some (File c) \<Longrightarrow> follow n fs p = Some (p, File c)"
  by (cases n) simp_all

lemma stat_Symlink:
  assumes "lookup fs p = Some (Symlink t)"
  shows "stat fs p = follow 39 fs t"
proof -
  have e: "(40::nat) = Suc 39" by simp
  show ?thesis
    unfolding stat_def by (subst e) (simp only: follow.simps assms option.case node.case)
qed

subsection \<open>Paths of the example environment\<close>

lemma ex_paths:
  "mainConfig ex_env = [''home'', ''u'', ''.claude'']"
  "getProfilePath ex_env ''work'' = [''home'', ''u'', ''.claude-work'']"
  "getProfileCredentialsPath ex_env ''work'' = [''home'', ''u'', ''.claude-work.json'']"
  "profilesConfig ex_env = [''home'', ''u'', ''.cc-profiles.json'']"
  by code_simp+

lemma ex_target_settings:
  "target_of [''home'', ''u'', ''.claude-work''] (sharedItems ! 0) =
     [''home'', ''u'', ''.claude-work'', ''settings.json'']"
  by code_simp

subsection \<open>Validator\<close>

lemma pattern_starts_lower: "PROFILE_NAME_PATTERN nm \<Longrightarrow> starts_lower nm"
  by (cases nm) simp_all

text \<open>
  Claim C5. \<open>getProfileNameError\<close> reports the first violated rule in the order empty,
  too long, pattern, reserved: its result is the message of the first rule of that chain
  that the name breaks (the pattern rule has two messages, one for a bad first character
  and one for a bad later character). It returns nothing exactly when
  \<open>isValidProfileName\<close> accepts the name. \<open>Claude\<close> gets the pattern message although
  its lowercasing is reserved.
\<close>

theorem getProfileNameError_first_violated_rule:
  "getProfileNameError nm =
     (if nm = [] then Some ''Profile name is required''
      else if length nm > 32 then Some ''Name must be 32 characters or less''
      else if \<not> PROFILE_NAME_PATTERN nm then
        Some (if starts_lower nm then ''Use only lowercase letters, numbers, and hyphens''
              else ''Name must start with a lowercase letter'')
      else if toLowerCase nm \<in> set RESERVED_NAMES then
        Some ([CHR 0x22] @ nm @ [CHR 0x22] @ '' is a reserved name'')
      else None)
   \<and> ((getProfileNameError nm = None) = isValidProfileName nm)
   \<and> getProfileNameError ''Claude'' = Some ''Name must start with a lowercase letter''
   \<and> toLowerCase ''Claude'' = ''claude'' \<and> ''claude'' \<in> set RESERVED_NAMES"
proof -
  have a: "PROFILE_NAME_PATTERN nm \<Longrightarrow> starts_lower nm"
    by (rule pattern_starts_lower)
  have 1: "getProfileNameError nm =
     (if nm = [] then Some ''Profile name is required''
      else if length nm > 32 then Some ''Name must be 32 characters or less''
      else if \<not> PROFILE_NAME_PATTERN nm then
        Some (if starts_lower nm then ''Use only lowercase letters, numbers, and hyphens''
              else ''Name must start with a lowercase letter'')
      else if toLowerCase nm \<in> set RESERVED_NAMES then
        Some ([CHR 0x22] @ nm @ [CHR 0x22] @ '' is a reserved name'')
      else None)"
    using a by (simp add: getProfileNameError_def MAX_PROFILE_NAME_LENGTH_def)
  have 2: "(getProfileNameError nm = None) = isValidProfileName nm"
    using a by (simp add: getProfileNameError_def isValidProfileName_def)
  have 3: "getProfileNameError ''Claude'' = Some ''Name must start with a lowercase letter''"
    by (simp add: getProfileNameError_def MAX_PROFILE_NAME_LENGTH_def is_lower_def)
  have 4: "toLowerCase ''Claude'' = ''claude''"
    by code_simp
  have 5: "''claude'' \<in> set RESERVED_NAMES"
    by (simp add: RESERVED_NAMES_def)
  from 1 2 3 4 5 show ?thesis by blast
qed

subsection \<open>Link status\<close>

text \<open>
  Claim C10. When the entry at a shared item's target path in the profile directory is a
  symbolic link that does not resolve, \<open>getSymlinkStatus\<close> reports the item with
  \<open>exists\<close>, \<open>isSymlink\<close> and \<open>targetExists\<close> all false: existence is decided by the
  link-following \<open>existsSync\<close>, and the other two flags are only computed when it holds.
\<close>

theorem getSymlinkStatus_broken_link_absent:
  assumes "i < length sharedItems"
    and "isSymbolicLink fs (target_of (getProfilePath e nm) (sharedItems ! i))"
    and "stat fs (target_of (getProfilePath e nm) (sharedItems ! i)) = None"
  shows "getSymlinkStatus e nm fs ! i =
           \<lparr>status_name = item_name (sharedItems ! i), status_exists = False,
            status_isSymlink = False, status_targetExists = False\<rparr>"
  using assms by (simp add: getSymlinkStatus_def item_status_def existsSync_def)

theorem getSymlinkStatus_broken_link_absent_witness:
  "(0::nat) < length sharedItems
   \<and> isSymbolicLink broken_fs (target_of (getProfilePath ex_env ''work'') (sharedItems ! 0))
   \<and> stat broken_fs (target_of (getProfilePath ex_env ''work'') (sharedItems ! 0)) = None
   \<and> getSymlinkStatus ex_env ''work'' broken_fs ! 0 =
           \<lparr>status_name = ''settings.json'', status_exists = False,
            status_isSymlink = False, status_targetExists = False\<rparr>"
proof -
  have a: "(0::nat) < length sharedItems"
    by (simp add: sharedItems_def)
  have b: "isSymbolicLink broken_fs (target_of (getProfilePath ex_env ''work'') (sharedItems ! 0))"
    by (simp add: ex_paths ex_target_settings isSymbolicLink_def lookup_def broken_fs_def)
  have c: "stat broken_fs (target_of (getProfilePath ex_env ''work'') (sharedItems ! 0)) = None"
    by code_simp
  have d: "item_name (sharedItems ! 0) = ''settings.json''"
    by (simp add: sharedItems_def)
  show ?thesis
    using getSymlinkStatus_broken_link_absent [OF a b c] a b c d by simp
qed

subsection \<open>Store accessor\<close>

lemma readFile_missing: "lookup fs p = None \<Longrightarrow> readFile fs p = None"
  by (simp add: readFile_def stat_def)

text \<open>
  Claim C6, as amended. \<open>loadProfilesConfig\<close> has no failing outcome (\<open>readJson\<close> catches
  every exception) and never returns a falsy value. When the metadata file cannot be read
  (it is missing, a directory or a link that does not resolve), when its text is rejected
  by \<open>JSON.parse\<close>, and when the text parses to a falsy value, the result is the fresh
  document with an empty \<open>profiles\<close> mapping and version \<open>1.0.0\<close>. Text that parses to
  a truthy value is returned as parsed, whether it has a \<open>profiles\<close> mapping or not.
\<close>

theorem loadProfilesConfig_total:
  "loadProfilesConfig e fs =
     (case readFile fs (profilesConfig e) of
        None \<Rightarrow> Config \<lparr>profiles = [], defaultProfile = None, version = ''1.0.0''\<rparr>
      | Some (Text s) \<Rightarrow> Config \<lparr>profiles = [], defaultProfile = None, version = ''1.0.0''\<rparr>
      | Some (Json Falsy) \<Rightarrow> Config \<lparr>profiles = [], defaultProfile = None, version = ''1.0.0''\<rparr>
      | Some (Json (Config c)) \<Rightarrow> Config c
      | Some (Json Shapeless) \<Rightarrow> Shapeless)
   \<and> loadProfilesConfig e fs \<noteq> Falsy"
  by (simp add: loadProfilesConfig_def readJson_def emptyConfig_def
      split: option.splits content.splits json_value.splits)

text \<open>
  The claim as stated fails on a metadata file whose text parses to a truthy value that is
  no document, such as \<open>{"version": "1.0.0"}\<close> or \<open>5\<close>: the value is returned as it is,
  without a \<open>profiles\<close> mapping, and \<open>listProfiles\<close> throws a \<open>TypeError\<close> on it.
\<close>

theorem loadProfilesConfig_shapeless_counterexample:
  "readFile shapeless_fs (profilesConfig ex_env) = Some (Json Shapeless)
   \<and> loadProfilesConfig ex_env shapeless_fs = Shapeless
   \<and> loadProfilesConfig ex_env shapeless_fs \<noteq>
       Config \<lparr>profiles = [], defaultProfile = None, version = ''1.0.0''\<rparr>
   \<and> fst (listProfiles ex_env shapeless_fs) = Inl TypeError"
  by code_simp

theorem loadProfilesConfig_total_witness:
  "loadProfilesConfig ex_env Map.empty =
     Config \<lparr>profiles = [], defaultProfile = None, version = ''1.0.0''\<rparr>
   \<and> loadProfilesConfig ex_env malformed_fs =
     Config \<lparr>profiles = [], defaultProfile = None, version = ''1.0.0''\<rparr>
   \<and> loadProfilesConfig ex_env falsy_fs =
     Config \<lparr>profiles = [], defaultProfile = None, version = ''1.0.0''\<rparr>
   \<and> loadProfilesConfig ex_env stale_fs = Config stale_config
   \<and> loadProfilesConfig ex_env shapeless_fs = Shapeless"
proof -
  have a: "readFile Map.empty (profilesConfig ex_env) = None"
    by (simp add: ex_paths readFile_def stat_def lookup_def)
  have b: "readFile malformed_fs (profilesConfig ex_env) = Some (Text ''{ profiles: '')"
    by (simp add: ex_paths readFile_def stat_def lookup_def malformed_fs_def)
  have c: "readFile falsy_fs (profilesConfig ex_env) = Some (Json Falsy)"
    by (simp add: ex_paths readFile_def stat_def lookup_def falsy_fs_def)
  have d: "readFile stale_fs (profilesConfig ex_env) = Some (Json (Config stale_config))"
    by (simp add: ex_paths readFile_def stat_def lookup_def stale_fs_def)
  have f: "readFile shapeless_fs (profilesConfig ex_env) = Some (Json Shapeless)"
    by (simp add: ex_paths readFile_def stat_def lookup_def shapeless_fs_def)
  show ?thesis
    using loadProfilesConfig_total [of ex_env Map.empty]
      loadProfilesConfig_total [of ex_env malformed_fs]
      loadProfilesConfig_total [of ex_env falsy_fs]
      loadProfilesConfig_total [of ex_env stale_fs]
      loadProfilesConfig_total [of ex_env shapeless_fs]
    by (simp add: a b c d f)
qed

subsection \<open>Listing\<close>

lemma mset_insert_by: "mset (insert_by cmp x ys) = add_mset x (mset ys)"
  by (induction ys) auto

lemma mset_sort_by: "mset (sort_by cmp xs) = mset xs"
  by (induction xs) (simp_all add: sort_by_def mset_insert_by)

lemma set_insert_by: "set (insert_by cmp x ys) = insert x (set ys)"
  by (induction ys) auto

lemma set_sort_by: "set (sort_by cmp xs) = set xs"
  by (induction xs) (simp_all add: sort_by_def set_insert_by)

lemma sorted_insert_by:
  assumes "createdAt x \<noteq> None"
    and "\<forall>y \<in> set ys. createdAt y \<noteq> None"
    and "sorted_wrt (\<lambda>a b. \<exists>s t. createdAt a = Some s \<and> createdAt b = Some t \<and> t \<le> s) ys"
  shows "sorted_wrt (\<lambda>a b. \<exists>s t. createdAt a = Some s \<and> createdAt b = Some t \<and> t \<le> s)
           (insert_by (\<lambda>a b. time_diff (createdAt b) (createdAt a)) x ys)"
  using assms
proof (induction ys)
  case Nil
  then show ?case by simp
next
  case (Cons y ys)
  obtain s where s: "createdAt x = Some s" using Cons.prems(1) by auto
  obtain t where t: "createdAt y = Some t" using Cons.prems(2) by auto
  have o: "sort_order (time_diff (createdAt y) (createdAt x)) = t - s"
    by (simp add: s t time_diff_def sort_order_def)
  show ?case
  proof (cases "t - s \<le> 0")
    case True
    have "\<exists>s' t'. createdAt x = Some s' \<and> createdAt z = Some t' \<and> t' \<le> s'"
      if "z \<in> set (y # ys)" for z
    proof (cases "z = y")
      case True
      then show ?thesis using s t \<open>t - s \<le> 0\<close> by simp
    next
      case False
      then have "z \<in> set ys" using that by simp
      then obtain u where "createdAt z = Some u" "u \<le> t"
        using Cons.prems(3) t by auto
      then show ?thesis using s \<open>t - s \<le> 0\<close> by simp
    qed
    then show ?thesis using True o Cons.prems(3) by simp
  next
    case False
    have ih: "sorted_wrt (\<lambda>a b. \<exists>s t. createdAt a = Some s \<and> createdAt b = Some t \<and> t \<le> s)
           (insert_by (\<lambda>a b. time_diff (createdAt b) (createdAt a)) x ys)"
      using Cons by simp
    have "\<exists>s' t'. createdAt y = Some s' \<and> createdAt z = Some t' \<and> t' \<le> s'"
      if "z \<in> set (insert_by (\<lambda>a b. time_diff (createdAt b) (createdAt a)) x ys)" for z
    proof (cases "z = x")
      case True
      then show ?thesis using s t False by simp
    next
      case False
      then have "z \<in> set ys" using that by (simp add: set_insert_by)
      then show ?thesis using Cons.prems(3) by auto
    qed
    then show ?thesis using False o ih by simp
  qed
qed

lemma sorted_sort_by:
  "\<forall>x \<in> set xs. createdAt x \<noteq> None \<Longrightarrow>
   sorted_wrt (\<lambda>a b. \<exists>s t. createdAt a = Some s \<and> createdAt b = Some t \<and> t \<le> s)
     (sort_by (\<lambda>a b. time_diff (createdAt b) (createdAt a)) xs)"
proof (induction xs)
  case Nil
  then show ?case by (simp add: sort_by_def)
next
  case (Cons x xs)
  have "sort_by (\<lambda>a b. time_diff (createdAt b) (createdAt a)) (x # xs) =
        insert_by (\<lambda>a b. time_diff (createdAt b) (createdAt a)) x
          (sort_by (\<lambda>a b. time_diff (createdAt b) (createdAt a)) xs)"
    by (simp add: sort_by_def)
  moreover have "\<forall>y \<in> set (sort_by (\<lambda>a b. time_diff (createdAt b) (createdAt a)) xs).
      createdAt y \<noteq> None"
    using Cons.prems by (simp add: set_sort_by)
  ultimately show ?case
    using Cons sorted_insert_by [of x] by simp
qed

lemma listProfiles_loop_views:
  "listProfiles_loop e fs entries acc =
     acc @ map (\<lambda>(n, m).
               \<lparr>profile_name = n,
                profile_path = getProfilePath e n,
                configPath = getProfilePath e n,
                credentialsPath = getProfileCredentialsPath e n,
                isAuthenticated = existsSync fs (getProfileCredentialsPath e n),
                createdAt = meta_createdAt m\<rparr>)
            (filter (\<lambda>(n, m). existsSync fs (getProfilePath e n)) entries)"
  by (induction e fs entries acc rule: listProfiles_loop.induct) simp_all

lemma ex_paths_more:
  "getProfilePath ex_env ''personal'' = [''home'', ''u'', ''.claude-personal'']"
  "getProfilePath ex_env ''lab'' = [''home'', ''u'', ''.claude-lab'']"
  "getProfileCredentialsPath ex_env ''personal'' = [''home'', ''u'', ''.claude-personal.json'']"
  "getProfileCredentialsPath ex_env ''lab'' = [''home'', ''u'', ''.claude-lab.json'']"
  by code_simp+

text \<open>
  Claim C2, as amended. For a profile that has an entry in the metadata document and whose
  private directory no longer exists, \<open>listProfiles\<close> succeeds and returns no profile of
  that name: it returns, in some order, exactly the views of the entries whose directory
  exists, each with the creation date of its entry in the document. When the creation
  dates of those entries are valid dates, the views are ordered newest first. The file
  system is left as it was, so the document read afterwards still has the entry.
\<close>

theorem listProfiles_omits_vanished_profile:
  assumes "loadProfilesConfig e fs = Config c"
    and "nm \<in> fst ` set (profiles c)"
    and "\<not> existsSync fs (getProfilePath e nm)"
  shows "\<exists>ps. listProfiles e fs = (Inr ps, fs)
            \<and> nm \<notin> profile_name ` set ps
            \<and> mset ps =
                mset (map (\<lambda>(n, m).
                             \<lparr>profile_name = n,
                              profile_path = getProfilePath e n,
                              configPath = getProfilePath e n,
                              credentialsPath = getProfileCredentialsPath e n,
                              isAuthenticated = existsSync fs (getProfileCredentialsPath e n),
                              createdAt = meta_createdAt m\<rparr>)
                        (filter (\<lambda>(n, m). existsSync fs (getProfilePath e n)) (profiles c)))
            \<and> ((\<forall>(n, m) \<in> set (profiles c).
                   existsSync fs (getProfilePath e n) \<longrightarrow> meta_createdAt m \<noteq> None)
                \<longrightarrow> sorted_wrt (\<lambda>a b. \<exists>s t. createdAt a = Some s \<and> createdAt b = Some t \<and> t \<le> s) ps)
            \<and> loadProfilesConfig e (snd (listProfiles e fs)) = Config c
            \<and> nm \<in> fst ` set (profiles c)"
proof -
  let ?view = "\<lambda>(n, m).
                 \<lparr>profile_name = n,
                  profile_path = getProfilePath e n,
                  configPath = getProfilePath e n,
                  credentialsPath = getProfileCredentialsPath e n,
                  isAuthenticated = existsSync fs (getProfileCredentialsPath e n),
                  createdAt = meta_createdAt m\<rparr>"
  let ?there = "filter (\<lambda>(n, m). existsSync fs (getProfilePath e n)) (profiles c)"
  let ?cmp = "\<lambda>a b. time_diff (createdAt b) (createdAt a)"
  let ?ps = "sort_by ?cmp (map ?view ?there)"
  have l: "listProfiles_loop e fs (profiles c) [] = map ?view ?there"
    by (simp add: listProfiles_loop_views)
  have 1: "listProfiles e fs = (Inr ?ps, fs)"
    using assms(1) by (simp add: listProfiles_def l)
  have 2: "mset ?ps = mset (map ?view ?there)"
    by (rule mset_sort_by)
  have "profile_name ` set (map ?view ?there) \<subseteq> {n. existsSync fs (getProfilePath e n)}"
    by auto
  then have 3: "nm \<notin> profile_name ` set ?ps"
    using assms(3) by (auto simp: set_sort_by)
  have 4: "sorted_wrt (\<lambda>a b. \<exists>s t. createdAt a = Some s \<and> createdAt b = Some t \<and> t \<le> s) ?ps"
    if v: "\<forall>(n, m) \<in> set (profiles c).
             existsSync fs (getProfilePath e n) \<longrightarrow> meta_createdAt m \<noteq> None"
  proof (rule sorted_sort_by)
    show "\<forall>x \<in> set (map ?view ?there). createdAt x \<noteq> None"
      using v by auto
  qed
  from 1 2 3 4 assms(1,2) show ?thesis by simp
qed

theorem listProfiles_omits_vanished_profile_witness:
  "loadProfilesConfig ex_env stale_fs = Config stale_config
   \<and> ''work'' \<in> fst ` set (profiles stale_config)
   \<and> \<not> existsSync stale_fs (getProfilePath ex_env ''work'')
   \<and> list_all (\<lambda>(n, m). existsSync stale_fs (getProfilePath ex_env n) \<longrightarrow> meta_createdAt m \<noteq> None)
         (profiles stale_config)
   \<and> (\<exists>ps. listProfiles ex_env stale_fs = (Inr ps, stale_fs)
            \<and> ''work'' \<notin> profile_name ` set ps
            \<and> sorted_wrt (\<lambda>a b. \<exists>s t. createdAt a = Some s \<and> createdAt b = Some t \<and> t \<le> s) ps
            \<and> map (\<lambda>p. (profile_name p, createdAt p)) ps =
                [(''lab'', Some 3000), (''personal'', Some 2000)])"
proof -
  have a: "loadProfilesConfig ex_env stale_fs = Config stale_config"
    by (simp add: ex_paths loadProfilesConfig_def readJson_def readFile_def stat_def lookup_def
        stale_fs_def)
  have b: "''work'' \<in> fst ` set (profiles stale_config)"
    by (simp add: stale_config_def)
  have c: "\<not> existsSync stale_fs (getProfilePath ex_env ''work'')"
    by (simp add: ex_paths existsSync_def stat_def lookup_def stale_fs_def)
  have v: "\<forall>(n, m) \<in> set (profiles stale_config).
         existsSync stale_fs (getProfilePath ex_env n) \<longrightarrow> meta_createdAt m \<noteq> None"
    by (simp add: stale_config_def)
  have f: "map_sum id (map (\<lambda>p. (profile_name p, createdAt p))) (fst (listProfiles ex_env stale_fs)) =
             Inr [(''lab'', Some 3000), (''personal'', Some 2000)]"
    by code_simp
  from listProfiles_omits_vanished_profile [OF a b c] v
  obtain ps where ps: "listProfiles ex_env stale_fs = (Inr ps, stale_fs)"
    "''work'' \<notin> profile_name ` set ps"
    "sorted_wrt (\<lambda>a b. \<exists>s t. createdAt a = Some s \<and> createdAt b = Some t \<and> t \<le> s) ps"
    by blast
  have g: "map (\<lambda>p. (profile_name p, createdAt p)) ps =
                [(''lab'', Some 3000), (''personal'', Some 2000)]"
    using f ps(1) by simp
  have "\<exists>ps. listProfiles ex_env stale_fs = (Inr ps, stale_fs)
            \<and> ''work'' \<notin> profile_name ` set ps
            \<and> sorted_wrt (\<lambda>a b. \<exists>s t. createdAt a = Some s \<and> createdAt b = Some t \<and> t \<le> s) ps
            \<and> map (\<lambda>p. (profile_name p, createdAt p)) ps =
                [(''lab'', Some 3000), (''personal'', Some 2000)]"
    using ps g by (intro exI [of _ ps] conjI)
  moreover have "list_all (\<lambda>(n, m). existsSync stale_fs (getProfilePath ex_env n) \<longrightarrow> meta_createdAt m \<noteq> None)
         (profiles stale_config)"
    using v by (simp add: list_all_iff)
  ultimately show ?thesis using a b c by (intro conjI)
qed

text \<open>
  The claim as stated fails when a listed entry has a \<open>createdAt\<close> that is no date: the
  comparator is \<open>NaN\<close> on every pair with that entry, and the profile created at 1000 is
  returned before the one created at 3000.
\<close>

theorem listProfiles_invalid_date_counterexample:
  "loadProfilesConfig ex_env undated_fs = Config undated_config
   \<and> ''work'' \<in> fst ` set (profiles undated_config)
   \<and> \<not> existsSync undated_fs (getProfilePath ex_env ''work'')
   \<and> map_sum id (map (\<lambda>p. (profile_name p, createdAt p))) (fst (listProfiles ex_env undated_fs)) =
       Inr [(''old'', Some 1000), (''odd'', None), (''new'', Some 3000)]
   \<and> (1000::int) < 3000"
  by code_simp

subsection \<open>Reading and writing files, strings\<close>

lemma lookup_upd_other: "q \<noteq> p \<Longrightarrow> lookup (fs(q \<mapsto> v)) p = lookup fs p"
  by (simp add: lookup_def)

lemma lookup_root [simp]: "lookup fs [] = Some Dir"
  by (simp add: lookup_def)

lemma write_target_step:
  "write_target n fs p = Some q \<Longrightarrow>
     (lookup fs p = None \<and> q = p) \<or> (\<exists>c. lookup fs p = Some (File c) \<and> q = p)
     \<or> (\<exists>t m. lookup fs p = Some (Symlink t) \<and> n = Suc m \<and> write_target m fs t = Some q)"
  by (cases n; cases "lookup fs p") (auto split: node.splits if_splits)

lemma write_target_not_link:
  "write_target n fs p = Some q \<Longrightarrow>
     q \<noteq> [] \<and> (lookup fs q = None \<or> (\<exists>c. lookup fs q = Some (File c)))"
proof (induction n arbitrary: p)
  case 0
  from write_target_step [OF 0] show ?case by auto
next
  case (Suc n)
  from write_target_step [OF Suc.prems] Suc.IH show ?case by auto
qed

lemma follow_step:
  "follow n fs p = Some (q, nd) \<Longrightarrow>
     (lookup fs p = Some nd \<and> q = p \<and> (\<forall>t. nd \<noteq> Symlink t))
     \<or> (\<exists>t m. lookup fs p = Some (Symlink t) \<and> n = Suc m \<and> follow m fs t = Some (q, nd))"
  by (cases n; cases "lookup fs p") (auto split: node.splits if_splits)

lemma follow_Symlink:
  "lookup fs p = Some (Symlink t) \<Longrightarrow> follow (Suc n) fs p = follow n fs t"
  by simp

lemma follow_write_target:
  "follow n fs p = Some (q, File c) \<Longrightarrow> write_target n fs p = Some q"
proof (induction n arbitrary: p)
  case 0
  from follow_step [OF 0] show ?case by auto
next
  case (Suc n)
  from follow_step [OF Suc.prems] Suc.IH show ?case by auto
qed

lemma follow_after_write_aux:
  assumes q: "q \<noteq> []" "lookup fs q = None \<or> (\<exists>c. lookup fs q = Some (File c))"
  shows "write_target n fs p = Some q \<Longrightarrow> follow n (fs(q \<mapsto> File c)) p = Some (q, File c)"
proof (induction n arbitrary: p)
  case 0
  have lq: "lookup (fs(q \<mapsto> File c)) q = Some (File c)"
    using q(1) by (simp add: lookup_def)
  from write_target_step [OF 0] have "p = q" by auto
  then show ?case using lq by (simp only: follow_File)
next
  case (Suc n)
  have lq: "lookup (fs(q \<mapsto> File c)) q = Some (File c)"
    using q(1) by (simp add: lookup_def)
  from write_target_step [OF Suc.prems]
  consider "p = q" | t where "lookup fs p = Some (Symlink t)" "write_target n fs t = Some q"
    by auto
  then show ?case
  proof cases
    case 1
    then show ?thesis using lq by (simp only: follow_File)
  next
    case 2
    then have "p \<noteq> q" using q(2) by auto
    then have "lookup (fs(q \<mapsto> File c)) p = Some (Symlink t)"
      using 2(1) by (simp add: lookup_upd_other)
    then have "follow (Suc n) (fs(q \<mapsto> File c)) p = follow n (fs(q \<mapsto> File c)) t"
      by (rule follow_Symlink)
    then show ?thesis using Suc.IH [OF 2(2)] by (simp only:)
  qed
qed

lemma follow_after_write:
  "write_target n fs p = Some q \<Longrightarrow> follow n (fs(q \<mapsto> File c)) p = Some (q, File c)"
  using follow_after_write_aux write_target_not_link by blast

lemma readFile_writeFile:
  "readFile fs p = Some c \<Longrightarrow>
     \<exists>q. stat fs p = Some (q, File c) \<and> writeFile fs p d = Some (fs(q \<mapsto> File d))
         \<and> readFile (fs(q \<mapsto> File d)) p = Some d"
proof -
  assume "readFile fs p = Some c"
  then obtain q where q: "stat fs p = Some (q, File c)"
    by (auto simp: readFile_def split: option.splits node.splits)
  then have w: "write_target 40 fs p = Some q"
    by (simp add: stat_def follow_write_target)
  then have "follow 40 (fs(q \<mapsto> File d)) p = Some (q, File d)"
    by (rule follow_after_write)
  then have "readFile (fs(q \<mapsto> File d)) p = Some d"
    by (simp add: readFile_def stat_def)
  with q w show ?thesis by (simp add: writeFile_def)
qed

lemma str_includes_here: "str_includes (m @ b) m"
proof (cases "m @ b")
  case Nil
  then show ?thesis by simp
next
  case (Cons a l)
  have "prefix m (m @ b)" by simp
  then have "prefix m (a # l)" by (simp only: Cons)
  then have "str_includes (a # l) m" by simp
  then show ?thesis by (simp only: Cons)
qed

lemma str_includes_append: "str_includes (a @ m @ b) m"
proof (induction a)
  case Nil
  then show ?case by (simp add: str_includes_here)
next
  case (Cons x a)
  then show ?case by simp
qed

lemma trimEnd_decompose:
  "s = trimEnd s @ rev (takeWhile is_space (rev s))
   \<and> list_all is_space (rev (takeWhile is_space (rev s)))"
proof -
  have "rev (takeWhile is_space (rev s) @ dropWhile is_space (rev s)) = s"
    by (simp only: takeWhile_dropWhile_id rev_rev_ident)
  then have "rev (dropWhile is_space (rev s)) @ rev (takeWhile is_space (rev s)) = s"
    by (simp only: rev_append)
  then have "s = trimEnd s @ rev (takeWhile is_space (rev s))"
    by (simp only: trimEnd_def)
  moreover have "list_all is_space (rev (takeWhile is_space (rev s)))"
    by (simp add: list_all_iff) (meson set_takeWhileD)
  ultimately show ?thesis by blast
qed

subsection \<open>Shell integration\<close>

text \<open>
  Claim C8, as amended. For every content of the startup file of a shell other than fish:
  when the content has the integration marker, \<open>setupShellIntegration\<close> changes
  nothing; otherwise it overwrites the file with its previous content, trailing white space
  removed, followed by a blank line and the marked block, and changes nothing else. The
  previous content is the part that is kept followed by white space only, and the new
  content has the marker, so that a later call changes nothing.
\<close>

theorem setupShellIntegration_appends_after_trim:
  assumes nf: "shell_type (detectShell e fs) \<noteq> fish"
    and rd: "readFile fs (rcFile (detectShell e fs)) = Some c"
  shows "\<exists>fs'. setupShellIntegration e render fs =
                 (Inr \<lparr>success = True, result_rcFile = rcFile (detectShell e fs)\<rparr>, fs')
           \<and> (if str_includes (chars render c) INTEGRATION_MARKER then fs' = fs
              else (\<exists>q. stat fs (rcFile (detectShell e fs)) = Some (q, File c)
                       \<and> fs' = fs(q \<mapsto> File (Text (trimEnd (chars render c) @ nl @ nl @ integrationLine @ nl))))
                   \<and> readFile fs' (rcFile (detectShell e fs)) =
                       Some (Text (trimEnd (chars render c) @ nl @ nl @ integrationLine @ nl)))
           \<and> (\<exists>ws. chars render c = trimEnd (chars render c) @ ws \<and> list_all is_space ws)
           \<and> str_includes (trimEnd (chars render c) @ nl @ nl @ integrationLine @ nl)
                 INTEGRATION_MARKER"
proof -
  let ?rc = "rcFile (detectShell e fs)"
  let ?old = "chars render c"
  let ?new = "trimEnd ?old @ nl @ nl @ integrationLine @ nl"
  let ?r = "\<lparr>success = True, result_rcFile = ?rc\<rparr>"
  have ex: "existsSync fs ?rc"
    using rd by (auto simp: existsSync_def readFile_def split: option.splits)
  have isi: "isShellIntegrated e render fs = Inr (str_includes ?old INTEGRATION_MARKER)"
    using nf ex rd by (simp add: isShellIntegrated_def)
  have ws: "\<exists>ws. ?old = trimEnd ?old @ ws \<and> list_all is_space ws"
    using trimEnd_decompose [of ?old] by blast
  have "?new = (trimEnd ?old @ nl @ nl) @ INTEGRATION_MARKER @
          (nl @ ''[ -f ~/.cc-profiles-aliases.sh ] && source ~/.cc-profiles-aliases.sh'' @ nl)"
    by (simp add: integrationLine_def)
  then have mk: "str_includes ?new INTEGRATION_MARKER"
    by (simp only: str_includes_append)
  show ?thesis
  proof (cases "str_includes ?old INTEGRATION_MARKER")
    case True
    then have "setupShellIntegration e render fs = (Inr ?r, fs)"
      using nf isi by (simp add: setupShellIntegration_def)
    then show ?thesis using True ws mk by simp
  next
    case False
    from readFile_writeFile [OF rd, of "Text ?new"]
    obtain q where q: "stat fs ?rc = Some (q, File c)"
      "writeFile fs ?rc (Text ?new) = Some (fs(q \<mapsto> File (Text ?new)))"
      "readFile (fs(q \<mapsto> File (Text ?new))) ?rc = Some (Text ?new)"
      by blast
    have "setupShellIntegration e render fs = (Inr ?r, fs(q \<mapsto> File (Text ?new)))"
      using nf isi False ex rd q(2) by (simp add: setupShellIntegration_def)
    then show ?thesis using False ws mk q by auto
  qed
qed

lemma ex_shell: "detectShell ex_env fs =
    \<lparr>shell_type = zsh, rcFile = [''home'', ''u'', ''.zshrc''], aliasFormat = ''function''\<rparr>"
  by (simp add: detectShell_def ex_env_def) code_simp

text \<open>
  The claim as stated fails on a startup file that ends in white space: the content
  \<open>PS1=x\<close> followed by a space is not a prefix of what is written.
\<close>

theorem setupShellIntegration_rewrites_trailing_space_counterexample:
  "readFile trailing_fs [''home'', ''u'', ''.zshrc''] = Some (Text ''PS1=x '')
   \<and> fst (setupShellIntegration ex_env (\<lambda>v. []) trailing_fs) =
       Inr \<lparr>success = True, result_rcFile = [''home'', ''u'', ''.zshrc'']\<rparr>
   \<and> readFile (snd (setupShellIntegration ex_env (\<lambda>v. []) trailing_fs)) [''home'', ''u'', ''.zshrc'']
       = Some (Text (''PS1=x'' @ nl @ nl @ integrationLine @ nl))
   \<and> \<not> prefix ''PS1=x '' (''PS1=x'' @ nl @ nl @ integrationLine @ nl)"
  by code_simp

theorem setupShellIntegration_appends_after_trim_witness:
  "shell_type (detectShell ex_env trailing_fs) \<noteq> fish
   \<and> readFile trailing_fs (rcFile (detectShell ex_env trailing_fs)) = Some (Text ''PS1=x '')
   \<and> \<not> str_includes ''PS1=x '' INTEGRATION_MARKER
   \<and> (\<exists>fs'. setupShellIntegration ex_env (\<lambda>v. []) trailing_fs =
                 (Inr \<lparr>success = True, result_rcFile = [''home'', ''u'', ''.zshrc'']\<rparr>, fs')
            \<and> readFile fs' [''home'', ''u'', ''.zshrc''] =
                  Some (Text (''PS1=x'' @ nl @ nl @ integrationLine @ nl)))
   \<and> shell_type (detectShell ex_env integrated_fs) \<noteq> fish
   \<and> readFile integrated_fs (rcFile (detectShell ex_env integrated_fs)) =
        Some (Text (''PS1=x'' @ nl @ nl @ integrationLine @ nl))
   \<and> str_includes (''PS1=x'' @ nl @ nl @ integrationLine @ nl) INTEGRATION_MARKER
   \<and> setupShellIntegration ex_env (\<lambda>v. []) integrated_fs =
         (Inr \<lparr>success = True, result_rcFile = [''home'', ''u'', ''.zshrc'']\<rparr>, integrated_fs)"
proof -
  have a: "shell_type (detectShell ex_env trailing_fs) \<noteq> fish"
    by (simp add: ex_shell)
  have b: "readFile trailing_fs (rcFile (detectShell ex_env trailing_fs)) = Some (Text ''PS1=x '')"
    by (simp add: ex_shell readFile_def stat_def lookup_def trailing_fs_def)
  have c: "\<not> str_includes ''PS1=x '' INTEGRATION_MARKER"
    by code_simp
  have t: "trimEnd ''PS1=x '' = ''PS1=x''"
    by code_simp
  have a': "shell_type (detectShell ex_env integrated_fs) \<noteq> fish"
    by (simp add: ex_shell)
  have b': "readFile integrated_fs (rcFile (detectShell ex_env integrated_fs)) =
        Some (Text (''PS1=x'' @ nl @ nl @ integrationLine @ nl))"
    by (simp add: ex_shell readFile_def stat_def lookup_def integrated_fs_def)
  have c': "str_includes (''PS1=x'' @ nl @ nl @ integrationLine @ nl) INTEGRATION_MARKER"
    by code_simp
  have 1: "\<exists>fs'. setupShellIntegration ex_env (\<lambda>v. []) trailing_fs =
                 (Inr \<lparr>success = True, result_rcFile = [''home'', ''u'', ''.zshrc'']\<rparr>, fs')
            \<and> readFile fs' [''home'', ''u'', ''.zshrc''] =
                  Some (Text (''PS1=x'' @ nl @ nl @ integrationLine @ nl))"
    using setupShellIntegration_appends_after_trim [OF a b, of "\<lambda>v. []"] c t
    by (auto simp: chars_def ex_shell)
  have 2: "setupShellIntegration ex_env (\<lambda>v. []) integrated_fs =
         (Inr \<lparr>success = True, result_rcFile = [''home'', ''u'', ''.zshrc'']\<rparr>, integrated_fs)"
    using setupShellIntegration_appends_after_trim [OF a' b', of "\<lambda>v. []"] c'
    by (auto simp: chars_def ex_shell)
  from a b c 1 a' b' c' 2 show ?thesis by (intro conjI)
qed

subsection \<open>Launcher artifact\<close>

lemma write_target_new [simp]:
  "lookup fs p = None \<Longrightarrow> is_dir fs (butlast p) \<Longrightarrow> write_target n fs p = Some p"
  by (cases n) simp_all

lemma write_target_File [simp]:
  "lookup fs p = Some (File c) \<Longrightarrow> write_target n fs p = Some p"
  by (cases n) simp_all

lemma writeFile_then_readFile:
  assumes "writeFile fs p d = Some fs'"
  shows "readFile fs' p = Some d \<and> (\<exists>q. write_target 40 fs p = Some q \<and> fs' = fs(q \<mapsto> File d))"
proof -
  from assms obtain q where q: "write_target 40 fs p = Some q" "fs' = fs(q \<mapsto> File d)"
    by (auto simp: writeFile_def split: option.splits)
  from follow_after_write [OF q(1), of d] have "readFile fs' p = Some d"
    by (simp add: q(2) readFile_def stat_def)
  with q show ?thesis by blast
qed

lemma rm_plain_result: "rm_plain fs p = Some fs' \<Longrightarrow> fs' = fs(p := None)"
  by (auto simp: rm_plain_def split: option.splits node.splits)

lemma split_lines_nonempty [simp]: "split_lines s \<noteq> []"
  by (induction s) auto

lemma split_lines_line: "CHR 0x0A \<notin> set l \<Longrightarrow> split_lines l = [l]"
  by (induction l) auto

lemma split_lines_append:
  "CHR 0x0A \<notin> set l \<Longrightarrow> split_lines (l @ CHR 0x0A # rest) = l # split_lines rest"
  by (induction l) auto

lemma join_with_Cons: "ys \<noteq> [] \<Longrightarrow> join_with sep (x # ys) = x @ sep @ join_with sep ys"
  by (cases ys) simp_all

lemma join_with_append:
  "xs \<noteq> [] \<Longrightarrow> ys \<noteq> [] \<Longrightarrow>
     join_with sep (xs @ ys) = join_with sep xs @ sep @ join_with sep ys"
proof (induction xs)
  case Nil
  then show ?case by simp
next
  case (Cons x xs)
  show ?case
  proof (cases "xs = []")
    case True
    then show ?thesis using Cons.prems by (simp add: join_with_Cons)
  next
    case False
    then show ?thesis using Cons by (simp add: join_with_Cons)
  qed
qed

lemma split_lines_join:
  "ls \<noteq> [] \<Longrightarrow> \<forall>l \<in> set ls. CHR 0x0A \<notin> set l \<Longrightarrow> split_lines (join_with nl ls) = ls"
proof (induction ls)
  case Nil
  then show ?case by simp
next
  case (Cons l ls)
  show ?case
  proof (cases "ls = []")
    case True
    then show ?thesis using Cons.prems by (simp add: split_lines_line)
  next
    case False
    then have "join_with nl (l # ls) = l @ CHR 0x0A # join_with nl ls"
      by (simp add: join_with_Cons nl_def)
    then show ?thesis using Cons False by (simp add: split_lines_append)
  qed
qed

lemma block_lines_Cons:
  "ns \<noteq> [] \<Longrightarrow> block_lines f (n # ns) = f n @ [[]] @ block_lines f ns"
  by (cases ns) simp_all

lemma block_lines_nonempty:
  assumes "ns \<noteq> []" and "\<And>n. f n \<noteq> []"
  shows "block_lines f ns \<noteq> []"
  using assms(1)
proof (induction ns rule: list_nonempty_induct)
  case (single x)
  then show ?case using assms(2) by simp
next
  case (cons x xs)
  then show ?case by (simp add: block_lines_Cons)
qed

lemma join_blocks:
  assumes "ns \<noteq> []" and "\<And>n. f n \<noteq> []"
  shows "join_with (nl @ nl) (map (\<lambda>n. join_with nl (f n)) ns) = join_with nl (block_lines f ns)"
  using assms(1)
proof (induction ns rule: list_nonempty_induct)
  case (single x)
  then show ?case by simp
next
  case (cons x xs)
  have r: "block_lines f xs \<noteq> []"
    using cons.hyps assms(2) by (rule block_lines_nonempty)
  have "join_with nl (f x @ [[]] @ block_lines f xs) =
        join_with nl (f x) @ nl @ join_with nl ([] # block_lines f xs)"
    using assms(2) [of x] by (simp add: join_with_append)
  also have "\<dots> = join_with nl (f x) @ nl @ nl @ join_with nl (block_lines f xs)"
    using r by (simp add: join_with_Cons)
  finally show ?case using cons by (simp add: block_lines_Cons join_with_Cons)
qed

lemma filter_block_lines:
  assumes "\<And>n. n \<in> set ns \<Longrightarrow> filter P (f n) = [g n]" and "\<not> P []"
  shows "filter P (block_lines f ns) = map g ns"
  using assms(1)
proof (induction ns)
  case Nil
  then show ?case by simp
next
  case (Cons x xs)
  show ?case
  proof (cases "xs = []")
    case True
    then show ?thesis using Cons.prems by simp
  next
    case False
    then show ?thesis using Cons assms(2) by (simp add: block_lines_Cons)
  qed
qed


lemma bash_content_lines:
  assumes "profileNames \<noteq> []"
  shows "bash_header stamp @ join_with (nl @ nl) (map bash_function profileNames) @ nl @
           bash_listFunction profileNames @ nl =
         join_with nl (bash_lines stamp profileNames)"
proof -
  have f: "bash_function = (\<lambda>n. join_with nl (bash_block n))"
    by (rule ext) (simp add: bash_function_def bash_block_def)
  have b: "join_with (nl @ nl) (map bash_function profileNames) =
           join_with nl (block_lines bash_block profileNames)"
    unfolding f using assms by (rule join_blocks) (simp add: bash_block_def)
  have ne: "block_lines bash_block profileNames \<noteq> []"
    using assms by (rule block_lines_nonempty) (simp add: bash_block_def)
  show ?thesis
    unfolding b bash_header_def bash_listFunction_def bash_lines_def
    using assms ne by (simp add: join_with_append join_with_Cons)
qed

lemma fish_content_lines:
  assumes "profileNames \<noteq> []"
  shows "fish_header stamp @ join_with (nl @ nl) (map fish_function profileNames) @ nl @
           fish_listFunction profileNames @ nl =
         join_with nl (fish_lines stamp profileNames)"
proof -
  have f: "fish_function = (\<lambda>n. join_with nl (fish_block n))"
    by (rule ext) (simp add: fish_function_def fish_block_def)
  have b: "join_with (nl @ nl) (map fish_function profileNames) =
           join_with nl (block_lines fish_block profileNames)"
    unfolding f using assms by (rule join_blocks) (simp add: fish_block_def)
  have ne: "block_lines fish_block profileNames \<noteq> []"
    using assms by (rule block_lines_nonempty) (simp add: fish_block_def)
  show ?thesis
    unfolding b fish_header_def fish_listFunction_def fish_lines_def
    using assms ne by (simp add: join_with_append join_with_Cons)
qed

lemma set_block_lines: "set (block_lines f ns) \<subseteq> insert [] (\<Union>n \<in> set ns. set (f n))"
  by (induction f ns rule: block_lines.induct) auto

lemma bash_lines_single:
  assumes "CHR 0x0A \<notin> set stamp" and "\<forall>n \<in> set profileNames. CHR 0x0A \<notin> set n"
  shows "\<forall>l \<in> set (bash_lines stamp profileNames). CHR 0x0A \<notin> set l"
proof -
  have "\<forall>l \<in> set (block_lines bash_block profileNames). CHR 0x0A \<notin> set l"
    using set_block_lines [of bash_block profileNames] assms(2)
    by (auto simp: bash_block_def dq_def)
  then show ?thesis using assms
    by (auto simp: bash_lines_def echo_line_def dq_def)
qed

lemma fish_lines_single:
  assumes "CHR 0x0A \<notin> set stamp" and "\<forall>n \<in> set profileNames. CHR 0x0A \<notin> set n"
  shows "\<forall>l \<in> set (fish_lines stamp profileNames). CHR 0x0A \<notin> set l"
proof -
  have "\<forall>l \<in> set (block_lines fish_block profileNames). CHR 0x0A \<notin> set l"
    using set_block_lines [of fish_block profileNames] assms(2)
    by (auto simp: fish_block_def dq_def)
  then show ?thesis using assms
    by (auto simp: fish_lines_def echo_line_def dq_def)
qed

lemma no_blank_prefix:
  "\<not> prefix '' '' n \<Longrightarrow> \<not> prefix (CHR '' '' # p) (n @ CHR ''('' # r)"
  by (cases n) auto

lemma bash_lines_config:
  assumes "\<forall>n \<in> set profileNames. \<not> prefix '' '' n"
  shows "filter (prefix ''    CLAUDE_CONFIG_DIR='') (bash_lines stamp profileNames) =
         map (\<lambda>n. ''    CLAUDE_CONFIG_DIR='' @ dq @ ''$HOME/.claude-'' @ n @ dq @
                    '' command claude '' @ dq @ ''$@'' @ dq) profileNames"
proof -
  have "filter (prefix ''    CLAUDE_CONFIG_DIR='') (block_lines bash_block profileNames) =
         map (\<lambda>n. ''    CLAUDE_CONFIG_DIR='' @ dq @ ''$HOME/.claude-'' @ n @ dq @
                    '' command claude '' @ dq @ ''$@'' @ dq) profileNames"
    using assms by (intro filter_block_lines) (auto simp: bash_block_def no_blank_prefix)
  then show ?thesis
    by (simp add: bash_lines_def echo_line_def dq_def)
qed

lemma bash_lines_echo:
  assumes "\<forall>n \<in> set profileNames. \<not> prefix '' '' n"
  shows "filter (prefix (''    echo '' @ dq @ ''  '')) (bash_lines stamp profileNames) =
         map (\<lambda>n. ''    echo '' @ dq @ ''  '' @ n @ dq) profileNames"
proof -
  have "filter (prefix (''    echo '' @ dq @ ''  '')) (block_lines bash_block profileNames) = []"
    using set_block_lines [of bash_block profileNames] assms
    by (auto simp: filter_empty_conv bash_block_def no_blank_prefix dq_def)
  then show ?thesis
    by (simp add: bash_lines_def echo_line_def dq_def)
qed

lemma bash_lines_listing:
  assumes "\<forall>n \<in> set profileNames. \<not> prefix '' '' n"
  shows "filter (\<lambda>l. l = ''    echo '' @ dq @ ''Available Claude Code profiles:'' @ dq)
           (bash_lines stamp profileNames) =
         [''    echo '' @ dq @ ''Available Claude Code profiles:'' @ dq]"
proof -
  have "filter (\<lambda>l. l = ''    echo '' @ dq @ ''Available Claude Code profiles:'' @ dq)
          (block_lines bash_block profileNames) = []"
    using set_block_lines [of bash_block profileNames] assms
    by (auto simp: filter_empty_conv bash_block_def dq_def)
  then show ?thesis
    by (simp add: bash_lines_def echo_line_def dq_def)
qed

lemma fish_lines_config:
  "filter (prefix ''    set -x CLAUDE_CONFIG_DIR '') (fish_lines stamp profileNames) =
   map (\<lambda>n. ''    set -x CLAUDE_CONFIG_DIR '' @ dq @ ''$HOME/.claude-'' @ n @ dq) profileNames"
proof -
  have "filter (prefix ''    set -x CLAUDE_CONFIG_DIR '') (block_lines fish_block profileNames) =
   map (\<lambda>n. ''    set -x CLAUDE_CONFIG_DIR '' @ dq @ ''$HOME/.claude-'' @ n @ dq) profileNames"
    by (intro filter_block_lines) (auto simp: fish_block_def)
  then show ?thesis
    by (simp add: fish_lines_def echo_line_def dq_def)
qed

lemma fish_lines_echo:
  "filter (prefix (''    echo '' @ dq @ ''  '')) (fish_lines stamp profileNames) =
   map (\<lambda>n. ''    echo '' @ dq @ ''  '' @ n @ dq) profileNames"
proof -
  have "filter (prefix (''    echo '' @ dq @ ''  '')) (block_lines fish_block profileNames) = []"
    using set_block_lines [of fish_block profileNames]
    by (auto simp: filter_empty_conv fish_block_def dq_def)
  then show ?thesis
    by (simp add: fish_lines_def echo_line_def dq_def)
qed

lemma fish_lines_listing:
  "filter (\<lambda>l. l = ''    echo '' @ dq @ ''Available Claude Code profiles:'' @ dq)
     (fish_lines stamp profileNames) =
   [''    echo '' @ dq @ ''Available Claude Code profiles:'' @ dq]"
proof -
  have "filter (\<lambda>l. l = ''    echo '' @ dq @ ''Available Claude Code profiles:'' @ dq)
          (block_lines fish_block profileNames) = []"
    using set_block_lines [of fish_block profileNames]
    by (auto simp: filter_empty_conv fish_block_def dq_def)
  then show ?thesis
    by (simp add: fish_lines_def echo_line_def dq_def)
qed

lemma aliases_content_lines:
  assumes "profileNames \<noteq> []" and "CHR 0x0A \<notin> set stamp"
    and "\<forall>n \<in> set profileNames. CHR 0x0A \<notin> set n"
  shows "split_lines (aliases_content sh stamp profileNames) =
           (if sh = fish then fish_lines stamp profileNames else bash_lines stamp profileNames)"
proof (cases "sh = fish")
  case True
  have "fish_lines stamp profileNames \<noteq> []" by (simp add: fish_lines_def)
  then show ?thesis
    using True fish_lines_single [OF assms(2,3)]
    by (simp add: aliases_content_def fish_content_lines [OF assms(1)] split_lines_join)
next
  case False
  have "bash_lines stamp profileNames \<noteq> []" by (simp add: bash_lines_def)
  then show ?thesis
    using False bash_lines_single [OF assms(2,3)]
    by (simp add: aliases_content_def bash_content_lines [OF assms(1)] split_lines_join)
qed

text \<open>
  Claim C7. When \<open>regenerateAliasesFile\<close> succeeds: with the empty list the only change is
  that the artifact, if it exists, is removed, and nothing is written. With a non-empty
  list the only entry written is the artifact (for fish, after its directory has been
  created), and the artifact then reads as the text spelled out below: the header with the
  time stamp, one invocation block per identifier of the list, in list order and with a
  blank line between two blocks, and then the one listing block with one \<open>echo\<close> line per
  identifier, in list order. That text is determined by the shell family, the time stamp
  and the list; nothing of the previous content of the file is part of it. When the time
  stamp and the identifiers are single lines and no identifier starts with a blank, the
  lines of the artifact that set \<open>CLAUDE_CONFIG_DIR\<close> are exactly those of the identifiers
  in list order, so are its lines that echo an identifier, and the opening line of the
  listing occurs once.
\<close>

theorem regenerateAliasesFile_replaces_artifact:
  assumes "regenerateAliasesFile e stamp profileNames fs = (Inr (), fs')"
  shows "if profileNames = [] then
           fs' = (if existsSync fs (getAliasesFilePath e fs)
                  then fs((getAliasesFilePath e fs) := None) else fs)
         else
           (\<exists>body fs1 q.
              readFile fs' (getAliasesFilePath e fs) = Some (Text body)
            \<and> fs1 = snd (if shell_type (detectShell e fs) = fish
                         then mkdir fs (join (HOME e) ''.config/fish/functions'')
                         else (True, fs))
            \<and> write_target 40 fs1 (getAliasesFilePath e fs) = Some q
            \<and> fs' = fs1(q \<mapsto> File (Text body))
            \<and> body =
                (if shell_type (detectShell e fs) = fish then
                   ''# Auto-generated by cc-profiles - DO NOT EDIT MANUALLY'' @ nl @
                   ''# This file is regenerated when profiles are created/removed'' @ nl @
                   ''# Generated: '' @ stamp @ nl @
                   nl @
                   join_with (nl @ nl)
                     (map (\<lambda>n. ''function '' @ n @ nl @
                               ''    set -x CLAUDE_CONFIG_DIR '' @ dq @ ''$HOME/.claude-'' @ n @ dq @ nl @
                               ''    command claude $argv'' @ nl @
                               ''end'') profileNames) @ nl @
                   nl @
                   ''function cc-list'' @ nl @
                   ''    echo '' @ dq @ ''Available Claude Code profiles:'' @ dq @ nl @
                   join_with nl (map (\<lambda>n. ''    echo '' @ dq @ ''  '' @ n @ dq) profileNames) @ nl @
                   ''    echo '' @ dq @ dq @ nl @
                   ''    echo '' @ dq @
                     ''Run any profile name as a command to start Claude with that profile.'' @
                     dq @ nl @
                   ''end'' @ nl
                 else
                   ''#!/bin/bash'' @ nl @
                   ''# Auto-generated by cc-profiles - DO NOT EDIT MANUALLY'' @ nl @
                   ''# This file is regenerated when profiles are created/removed'' @ nl @
                   ''# Generated: '' @ stamp @ nl @
                   nl @
                   join_with (nl @ nl)
                     (map (\<lambda>n. n @ ''() {'' @ nl @
                               ''    CLAUDE_CONFIG_DIR='' @ dq @ ''$HOME/.claude-'' @ n @ dq @
                                 '' command claude '' @ dq @ ''$@'' @ dq @ nl @
                               ''}'') profileNames) @ nl @
                   nl @
                   ''# List all available profiles'' @ nl @
                   ''cc-list() {'' @ nl @
                   ''    echo '' @ dq @ ''Available Claude Code profiles:'' @ dq @ nl @
                   join_with nl (map (\<lambda>n. ''    echo '' @ dq @ ''  '' @ n @ dq) profileNames) @ nl @
                   ''    echo '' @ dq @ dq @ nl @
                   ''    echo '' @ dq @
                     ''Run any profile name as a command to start Claude with that profile.'' @
                     dq @ nl @
                   ''}'' @ nl)
            \<and> (CHR 0x0A \<notin> set stamp
                 \<and> (\<forall>n \<in> set profileNames. CHR 0x0A \<notin> set n \<and> \<not> prefix '' '' n) \<longrightarrow>
                 filter (prefix (if shell_type (detectShell e fs) = fish
                                 then ''    set -x CLAUDE_CONFIG_DIR ''
                                 else ''    CLAUDE_CONFIG_DIR='')) (split_lines body) =
                   map (\<lambda>n. if shell_type (detectShell e fs) = fish
                             then ''    set -x CLAUDE_CONFIG_DIR '' @ dq @ ''$HOME/.claude-'' @ n @ dq
                             else ''    CLAUDE_CONFIG_DIR='' @ dq @ ''$HOME/.claude-'' @ n @ dq @
                                    '' command claude '' @ dq @ ''$@'' @ dq) profileNames
               \<and> filter (prefix (''    echo '' @ dq @ ''  '')) (split_lines body) =
                   map (\<lambda>n. ''    echo '' @ dq @ ''  '' @ n @ dq) profileNames
               \<and> filter (\<lambda>l. l = ''    echo '' @ dq @ ''Available Claude Code profiles:'' @ dq)
                     (split_lines body) =
                   [''    echo '' @ dq @ ''Available Claude Code profiles:'' @ dq]))"
proof (cases "profileNames = []")
  case True
  then show ?thesis using assms
    by (auto simp: regenerateAliasesFile_def dest: rm_plain_result split: if_splits option.splits)
next
  case False
  let ?af = "getAliasesFilePath e fs"
  let ?sh = "shell_type (detectShell e fs)"
  let ?t = "aliases_content ?sh stamp profileNames"
  let ?m = "if ?sh = fish
            then mkdir fs (join (HOME e) ''.config/fish/functions'') else (True, fs)"
  obtain ok fs1 where m: "?m = (ok, fs1)" by (cases ?m)
  from assms False m have ok: "ok" and w: "writeFile fs1 ?af (Text ?t) = Some fs'"
    by (auto simp: regenerateAliasesFile_def split: if_splits option.splits bool.splits)
  from writeFile_then_readFile [OF w] m
  obtain q where r: "readFile fs' ?af = Some (Text ?t)"
    and q: "write_target 40 (snd ?m) ?af = Some q" "fs' = (snd ?m)(q \<mapsto> File (Text ?t))"
    by auto
  have t: "?t = (if ?sh = fish then
                   ''# Auto-generated by cc-profiles - DO NOT EDIT MANUALLY'' @ nl @
                   ''# This file is regenerated when profiles are created/removed'' @ nl @
                   ''# Generated: '' @ stamp @ nl @
                   nl @
                   join_with (nl @ nl)
                     (map (\<lambda>n. ''function '' @ n @ nl @
                               ''    set -x CLAUDE_CONFIG_DIR '' @ dq @ ''$HOME/.claude-'' @ n @ dq @ nl @
                               ''    command claude $argv'' @ nl @
                               ''end'') profileNames) @ nl @
                   nl @
                   ''function cc-list'' @ nl @
                   ''    echo '' @ dq @ ''Available Claude Code profiles:'' @ dq @ nl @
                   join_with nl (map (\<lambda>n. ''    echo '' @ dq @ ''  '' @ n @ dq) profileNames) @ nl @
                   ''    echo '' @ dq @ dq @ nl @
                   ''    echo '' @ dq @
                     ''Run any profile name as a command to start Claude with that profile.'' @
                     dq @ nl @
                   ''end'' @ nl
                 else
                   ''#!/bin/bash'' @ nl @
                   ''# Auto-generated by cc-profiles - DO NOT EDIT MANUALLY'' @ nl @
                   ''# This file is regenerated when profiles are created/removed'' @ nl @
                   ''# Generated: '' @ stamp @ nl @
                   nl @
                   join_with (nl @ nl)
                     (map (\<lambda>n. n @ ''() {'' @ nl @
                               ''    CLAUDE_CONFIG_DIR='' @ dq @ ''$HOME/.claude-'' @ n @ dq @
                                 '' command claude '' @ dq @ ''$@'' @ dq @ nl @
                               ''}'') profileNames) @ nl @
                   nl @
                   ''# List all available profiles'' @ nl @
                   ''cc-list() {'' @ nl @
                   ''    echo '' @ dq @ ''Available Claude Code profiles:'' @ dq @ nl @
                   join_with nl (map (\<lambda>n. ''    echo '' @ dq @ ''  '' @ n @ dq) profileNames) @ nl @
                   ''    echo '' @ dq @ dq @ nl @
                   ''    echo '' @ dq @
                     ''Run any profile name as a command to start Claude with that profile.'' @
                     dq @ nl @
                   ''}'' @ nl)"
  proof -
    have f: "fish_function = (\<lambda>n. ''function '' @ n @ nl @
                               ''    set -x CLAUDE_CONFIG_DIR '' @ dq @ ''$HOME/.claude-'' @ n @ dq @ nl @
                               ''    command claude $argv'' @ nl @
                               ''end'')"
      by (rule ext) (simp add: fish_function_def)
    have b: "bash_function = (\<lambda>n. n @ ''() {'' @ nl @
                               ''    CLAUDE_CONFIG_DIR='' @ dq @ ''$HOME/.claude-'' @ n @ dq @
                                 '' command claude '' @ dq @ ''$@'' @ dq @ nl @
                               ''}'')"
      by (rule ext) (simp add: bash_function_def)
    have e: "echo_line = (\<lambda>n. ''    echo '' @ dq @ ''  '' @ n @ dq)"
      by (rule ext) (simp add: echo_line_def)
    show ?thesis
      unfolding aliases_content_def f b e fish_header_def bash_header_def
        fish_listFunction_def bash_listFunction_def
      by simp
  qed
  have l: "CHR 0x0A \<notin> set stamp
                 \<and> (\<forall>n \<in> set profileNames. CHR 0x0A \<notin> set n \<and> \<not> prefix '' '' n) \<longrightarrow>
                 filter (prefix (if ?sh = fish
                                 then ''    set -x CLAUDE_CONFIG_DIR ''
                                 else ''    CLAUDE_CONFIG_DIR='')) (split_lines ?t) =
                   map (\<lambda>n. if ?sh = fish
                             then ''    set -x CLAUDE_CONFIG_DIR '' @ dq @ ''$HOME/.claude-'' @ n @ dq
                             else ''    CLAUDE_CONFIG_DIR='' @ dq @ ''$HOME/.claude-'' @ n @ dq @
                                    '' command claude '' @ dq @ ''$@'' @ dq) profileNames
               \<and> filter (prefix (''    echo '' @ dq @ ''  '')) (split_lines ?t) =
                   map (\<lambda>n. ''    echo '' @ dq @ ''  '' @ n @ dq) profileNames
               \<and> filter (\<lambda>l. l = ''    echo '' @ dq @ ''Available Claude Code profiles:'' @ dq)
                     (split_lines ?t) =
                   [''    echo '' @ dq @ ''Available Claude Code profiles:'' @ dq]"
  proof (intro impI, elim conjE)
    assume s: "CHR 0x0A \<notin> set stamp"
      and n: "\<forall>n \<in> set profileNames. CHR 0x0A \<notin> set n \<and> \<not> prefix '' '' n"
    from n have n1: "\<forall>n \<in> set profileNames. CHR 0x0A \<notin> set n"
      and n2: "\<forall>n \<in> set profileNames. \<not> prefix '' '' n" by auto
    note sl = aliases_content_lines [OF False s n1, of ?sh]
    show "filter (prefix (if ?sh = fish
                                 then ''    set -x CLAUDE_CONFIG_DIR ''
                                 else ''    CLAUDE_CONFIG_DIR='')) (split_lines ?t) =
                   map (\<lambda>n. if ?sh = fish
                             then ''    set -x CLAUDE_CONFIG_DIR '' @ dq @ ''$HOME/.claude-'' @ n @ dq
                             else ''    CLAUDE_CONFIG_DIR='' @ dq @ ''$HOME/.claude-'' @ n @ dq @
                                    '' command claude '' @ dq @ ''$@'' @ dq) profileNames
               \<and> filter (prefix (''    echo '' @ dq @ ''  '')) (split_lines ?t) =
                   map (\<lambda>n. ''    echo '' @ dq @ ''  '' @ n @ dq) profileNames
               \<and> filter (\<lambda>l. l = ''    echo '' @ dq @ ''Available Claude Code profiles:'' @ dq)
                     (split_lines ?t) =
                   [''    echo '' @ dq @ ''Available Claude Code profiles:'' @ dq]"
    proof (cases "?sh = fish")
      case True
      show ?thesis
        unfolding sl using True
        by (simp only: if_True fish_lines_config fish_lines_echo fish_lines_listing simp_thms)
    next
      case False
      show ?thesis
        unfolding sl using False
        by (simp only: if_False bash_lines_config [OF n2] bash_lines_echo [OF n2]
              bash_lines_listing [OF n2] simp_thms)
    qed
  qed
  from r q t l m False show ?thesis
    by (simp only: if_False) (intro exI conjI; (assumption | rule refl)?)
qed

lemma ex_aliases: "getAliasesFilePath ex_env fs = [''home'', ''u'', ''.cc-profiles-aliases.sh'']"
  by (simp add: getAliasesFilePath_def ex_shell) code_simp

theorem regenerateAliasesFile_replaces_artifact_witness:
  \<open>regenerateAliasesFile ex_env ''2024-01-01T00:00:00.000Z'' [''work'', ''personal''] prior_fs =
     (Inr (), prior_fs([''home'', ''u'', ''.cc-profiles-aliases.sh''] \<mapsto>
                File (Text two_profiles_text)))
   \<and> readFile (prior_fs([''home'', ''u'', ''.cc-profiles-aliases.sh''] \<mapsto>
                File (Text two_profiles_text)))
        [''home'', ''u'', ''.cc-profiles-aliases.sh''] = Some (Text two_profiles_text)
   \<and> filter (prefix ''    CLAUDE_CONFIG_DIR='') (split_lines two_profiles_text) =
        [''    CLAUDE_CONFIG_DIR="$HOME/.claude-work" command claude "$@"'',
         ''    CLAUDE_CONFIG_DIR="$HOME/.claude-personal" command claude "$@"'']
   \<and> filter (prefix ''    echo "  '') (split_lines two_profiles_text) =
        [''    echo "  work"'', ''    echo "  personal"'']
   \<and> filter (\<lambda>l. l = ''    echo "Available Claude Code profiles:"'')
        (split_lines two_profiles_text) = [''    echo "Available Claude Code profiles:"'']
   \<and> regenerateAliasesFile ex_env ''2024-02-02T00:00:00.000Z'' [''work'']
        (prior_fs([''home'', ''u'', ''.cc-profiles-aliases.sh''] \<mapsto>
           File (Text two_profiles_text))) =
       (Inr (), prior_fs([''home'', ''u'', ''.cc-profiles-aliases.sh''] \<mapsto>
                  File (Text one_profile_text)))
   \<and> str_includes two_profiles_text ''personal''
   \<and> \<not> str_includes one_profile_text ''personal''
   \<and> \<not> str_includes two_profiles_text ''old''
   \<and> regenerateAliasesFile ex_env ''2024-03-03T00:00:00.000Z'' []
        (prior_fs([''home'', ''u'', ''.cc-profiles-aliases.sh''] \<mapsto>
           File (Text one_profile_text))) =
       (Inr (), (prior_fs([''home'', ''u'', ''.cc-profiles-aliases.sh''] \<mapsto>
                   File (Text one_profile_text)))
                ([''home'', ''u'', ''.cc-profiles-aliases.sh''] := None))\<close>
proof -
  let ?af = "[''home'', ''u'', ''.cc-profiles-aliases.sh'']"
  let ?fs2 = "prior_fs(?af \<mapsto> File (Text two_profiles_text))"
  let ?fs1 = "prior_fs(?af \<mapsto> File (Text one_profile_text))"
  have c2: "aliases_content zsh ''2024-01-01T00:00:00.000Z'' [''work'', ''personal''] =
            two_profiles_text"
    by code_simp
  have c1: "aliases_content zsh ''2024-02-02T00:00:00.000Z'' [''work''] = one_profile_text"
    by code_simp
  have l0: "lookup prior_fs ?af = Some (File (Text ''old() { claude; }''))"
    by (simp add: lookup_def prior_fs_def)
  have l2: "lookup ?fs2 ?af = Some (File (Text two_profiles_text))"
    by (simp add: lookup_def)
  have l1: "lookup ?fs1 ?af = Some (File (Text one_profile_text))"
    by (simp add: lookup_def)
  have 1: "regenerateAliasesFile ex_env ''2024-01-01T00:00:00.000Z'' [''work'', ''personal'']
             prior_fs = (Inr (), ?fs2)"
    using l0 by (simp add: regenerateAliasesFile_def ex_shell ex_aliases writeFile_def c2)
  have 2: "regenerateAliasesFile ex_env ''2024-02-02T00:00:00.000Z'' [''work''] ?fs2 =
             (Inr (), ?fs1)"
    using l2 by (simp add: regenerateAliasesFile_def ex_shell ex_aliases writeFile_def c1)
  have 3: "regenerateAliasesFile ex_env ''2024-03-03T00:00:00.000Z'' [] ?fs1 =
             (Inr (), ?fs1(?af := None))"
    using l1
    by (simp add: regenerateAliasesFile_def ex_aliases existsSync_def stat_def rm_plain_def)
  have r: "readFile ?fs2 ?af = Some (Text two_profiles_text)"
    using l2 by (simp add: readFile_def stat_def)
  from regenerateAliasesFile_replaces_artifact [OF 1]
  obtain body where
    t: "readFile ?fs2 (getAliasesFilePath ex_env prior_fs) = Some (Text body)"
    and f: "CHR 0x0A \<notin> set ''2024-01-01T00:00:00.000Z''
            \<and> (\<forall>n \<in> set [''work'', ''personal'']. CHR 0x0A \<notin> set n \<and> \<not> prefix '' '' n) \<longrightarrow>
            filter (prefix (if shell_type (detectShell ex_env prior_fs) = fish
                            then ''    set -x CLAUDE_CONFIG_DIR ''
                            else ''    CLAUDE_CONFIG_DIR='')) (split_lines body) =
              map (\<lambda>n. if shell_type (detectShell ex_env prior_fs) = fish
                        then ''    set -x CLAUDE_CONFIG_DIR '' @ dq @ ''$HOME/.claude-'' @ n @ dq
                        else ''    CLAUDE_CONFIG_DIR='' @ dq @ ''$HOME/.claude-'' @ n @ dq @
                               '' command claude '' @ dq @ ''$@'' @ dq) [''work'', ''personal'']
          \<and> filter (prefix (''    echo '' @ dq @ ''  '')) (split_lines body) =
              map (\<lambda>n. ''    echo '' @ dq @ ''  '' @ n @ dq) [''work'', ''personal'']
          \<and> filter (\<lambda>l. l = ''    echo '' @ dq @ ''Available Claude Code profiles:'' @ dq)
                (split_lines body) =
              [''    echo '' @ dq @ ''Available Claude Code profiles:'' @ dq]"
    by (simp only: list.distinct if_False) blast
  from t r have tt: "body = two_profiles_text"
    by (simp add: ex_aliases)
  have h: "CHR 0x0A \<notin> set ''2024-01-01T00:00:00.000Z''
            \<and> (\<forall>n \<in> set [''work'', ''personal'']. CHR 0x0A \<notin> set n \<and> \<not> prefix '' '' n)"
    by simp
  have sh: "(shell_type (detectShell ex_env prior_fs) = fish) = False"
    by (simp add: ex_shell)
  have m1: \<open>map (\<lambda>n. ''    CLAUDE_CONFIG_DIR='' @ dq @ ''$HOME/.claude-'' @ n @ dq @
                      '' command claude '' @ dq @ ''$@'' @ dq) [''work'', ''personal''] =
        [''    CLAUDE_CONFIG_DIR="$HOME/.claude-work" command claude "$@"'',
         ''    CLAUDE_CONFIG_DIR="$HOME/.claude-personal" command claude "$@"'']\<close>
    by (simp add: dq_def)
  have m2: \<open>map (\<lambda>n. ''    echo '' @ dq @ ''  '' @ n @ dq) [''work'', ''personal''] =
        [''    echo "  work"'', ''    echo "  personal"'']\<close>
    by (simp add: dq_def)
  have m3: \<open>''    echo '' @ dq @ ''  '' = ''    echo "  ''\<close>
    by (simp add: dq_def)
  have m4: \<open>''    echo '' @ dq @ ''Available Claude Code profiles:'' @ dq =
            ''    echo "Available Claude Code profiles:"''\<close>
    by (simp add: dq_def)
  note ff = f [rule_format, OF h, unfolded tt sh if_False m1 m2 m3 m4]
  have g: \<open>filter (prefix ''    CLAUDE_CONFIG_DIR='') (split_lines two_profiles_text) =
        [''    CLAUDE_CONFIG_DIR="$HOME/.claude-work" command claude "$@"'',
         ''    CLAUDE_CONFIG_DIR="$HOME/.claude-personal" command claude "$@"'']\<close>
    using ff by (rule conjunct1)
  have g2: \<open>filter (prefix ''    echo "  '') (split_lines two_profiles_text) =
        [''    echo "  work"'', ''    echo "  personal"'']\<close>
    using ff by (rule conjunct1 [OF conjunct2])
  have g3: \<open>filter (\<lambda>l. l = ''    echo "Available Claude Code profiles:"'')
        (split_lines two_profiles_text) = [''    echo "Available Claude Code profiles:"'']\<close>
    using ff by (rule conjunct2 [OF conjunct2])
  have 4: "str_includes two_profiles_text ''personal''" by code_simp
  have 5: "\<not> str_includes one_profile_text ''personal''" by code_simp
  have 6: "\<not> str_includes two_profiles_text ''old''" by code_simp
  from 1 r g g2 g3 2 4 5 6 3 show ?thesis by (intro conjI)
qed

subsection \<open>Normalised paths\<close>

lemma normalize_snoc: "path_normalize (cs @ [c]) = normalize_step (path_normalize cs) c"
  by (simp add: path_normalize_def)

lemma normalize_append: "path_normalize (xs @ ys) = foldl normalize_step (path_normalize xs) ys"
  by (simp add: path_normalize_def)

lemma normalize_plain: "list_all plain (path_normalize cs)"
proof (induction cs rule: rev_induct)
  case Nil
  then show ?case by (simp add: path_normalize_def)
next
  case (snoc c cs)
  have b: "list_all plain (butlast (path_normalize cs))"
    using snoc by (simp add: list_all_iff) (meson in_set_butlastD)
  show ?case
  proof (cases "plain c")
    case True
    then have "normalize_step (path_normalize cs) c = path_normalize cs @ [c]"
      by (simp add: normalize_step_def plain_def)
    then show ?thesis using snoc True by (simp add: normalize_snoc)
  next
    case False
    then have "normalize_step (path_normalize cs) c = path_normalize cs
               \<or> normalize_step (path_normalize cs) c = butlast (path_normalize cs)"
      by (auto simp: normalize_step_def plain_def)
    then show ?thesis using snoc b by (auto simp: normalize_snoc)
  qed
qed

lemma foldl_step_plain:
  "list_all plain ys \<Longrightarrow> foldl normalize_step acc ys = acc @ ys"
  by (induction ys arbitrary: acc) (simp_all add: normalize_step_def plain_def)

lemma normalize_idem: "path_normalize (path_normalize cs) = path_normalize cs"
  using foldl_step_plain [OF normalize_plain, of "[]" cs] by (simp add: path_normalize_def)

lemma normalize_normalize_append: "path_normalize (path_normalize xs @ ys) = path_normalize (xs @ ys)"
  by (simp add: normalize_append normalize_idem)

lemma split_slash_aux_no_slash:
  "CHR ''/'' \<notin> set s \<Longrightarrow> split_slash_aux acc s = [rev acc @ s]"
  by (induction s arbitrary: acc) auto

lemma split_slash_no_slash: "CHR ''/'' \<notin> set s \<Longrightarrow> split_slash s = [s]"
  by (simp add: split_slash_def split_slash_aux_no_slash)

lemma join_plain:
  "CHR ''/'' \<notin> set s \<Longrightarrow> plain s \<Longrightarrow> join base s = path_normalize base @ [s]"
  by (simp add: join_def split_slash_no_slash normalize_snoc normalize_step_def plain_def)

lemma join_normalized:
  "CHR ''/'' \<notin> set s \<Longrightarrow> plain s \<Longrightarrow> join (path_normalize base) s = path_normalize base @ [s]"
  by (simp add: join_plain normalize_idem)

lemma mainConfig_path: "mainConfig e = path_normalize (HOME e) @ [''.claude'']"
  by (simp add: mainConfig_def join_plain plain_def)

lemma profilesConfig_path: "profilesConfig e = path_normalize (HOME e) @ [''.cc-profiles.json'']"
  by (simp add: profilesConfig_def join_plain plain_def)

lemma normalize_mainConfig: "path_normalize (mainConfig e) = mainConfig e"
  by (simp add: mainConfig_def join_def normalize_idem)

lemma item_names:
  "item \<in> set sharedItems \<Longrightarrow> CHR ''/'' \<notin> set (item_name item) \<and> plain (item_name item)"
  by (auto simp: sharedItems_def plain_def)

lemma source_of_path:
  "item \<in> set sharedItems \<Longrightarrow>
     source_of e item = path_normalize (HOME e) @ [''.claude'', item_name item]"
  using item_names [of item]
  by (simp add: source_of_def join_plain normalize_mainConfig) (simp add: mainConfig_path)

lemma valid_no_slash: "isValidProfileName nm \<Longrightarrow> CHR ''/'' \<notin> set nm"
proof -
  assume "isValidProfileName nm"
  then have p: "PROFILE_NAME_PATTERN nm"
    by (simp add: isValidProfileName_def split: if_splits)
  have a: "\<not> is_lower CHR ''/''" "\<not> is_digit CHR ''/''" "CHR ''/'' \<noteq> CHR ''-''"
    by (simp_all add: is_lower_def is_digit_def)
  from p a show ?thesis
    by (cases nm) (auto simp: list_all_iff)
qed

lemma getProfilePath_path:
  "CHR ''/'' \<notin> set nm \<Longrightarrow> getProfilePath e nm = path_normalize (HOME e) @ [''.claude-'' @ nm]"
  by (simp add: getProfilePath_def join_plain plain_def)

lemma getProfileCredentialsPath_path:
  "CHR ''/'' \<notin> set nm \<Longrightarrow>
     getProfileCredentialsPath e nm = path_normalize (HOME e) @ [''.claude-'' @ nm @ ''.json'']"
  by (simp add: getProfileCredentialsPath_def join_plain plain_def)

lemma target_of_path:
  "item \<in> set sharedItems \<Longrightarrow> path_normalize pp = pp \<Longrightarrow> target_of pp item = pp @ [item_name item]"
  using item_names [of item] by (simp add: target_of_def join_plain)

lemma normalize_getProfilePath: "path_normalize (getProfilePath e nm) = getProfilePath e nm"
  by (simp add: getProfilePath_def join_def normalize_idem)

subsection \<open>Creating directories\<close>

text \<open>mkdir only adds directories, at prefixes of the path.\<close>

lemma mkdir_p_adds_dirs:
  "mkdir_p cur fs cs = (ok, fs') \<Longrightarrow>
     fs' k = fs k \<or> (fs k = None \<and> fs' k = Some Dir \<and> prefix k (cur @ cs) \<and> k \<noteq> [])"
proof (induction cs arbitrary: cur fs)
  case Nil
  then show ?case by simp
next
  case (Cons c cs)
  show ?case
  proof (cases "lookup fs (cur @ [c])")
    case None
    then have n: "fs (cur @ [c]) = None" by (simp add: lookup_def split: if_splits)
    from Cons.prems None have "mkdir_p (cur @ [c]) (fs(cur @ [c] \<mapsto> Dir)) cs = (ok, fs')"
      by simp
    from Cons.IH [OF this]
    have "fs' k = (fs(cur @ [c] \<mapsto> Dir)) k
          \<or> ((fs(cur @ [c] \<mapsto> Dir)) k = None \<and> fs' k = Some Dir
              \<and> prefix k ((cur @ [c]) @ cs) \<and> k \<noteq> [])" .
    then show ?thesis using n by (cases "k = cur @ [c]") auto
  next
    case (Some nd)
    show ?thesis
    proof (cases "nd = Dir")
      case True
      with Cons.prems Some have "mkdir_p (cur @ [c]) fs cs = (ok, fs')" by simp
      from Cons.IH [OF this] show ?thesis by auto
    next
      case False
      with Cons.prems Some have "fs' = fs" by (cases nd) auto
      then show ?thesis by simp
    qed
  qed
qed

lemma mkdir_adds_dirs:
  "mkdir fs p = (ok, fs') \<Longrightarrow>
     fs' k = fs k \<or> (fs k = None \<and> fs' k = Some Dir \<and> prefix k p \<and> k \<noteq> [])"
  using mkdir_p_adds_dirs [of "[]" fs p ok fs' k] by (simp add: mkdir_def)

lemma follow_file_extends:
  assumes ext: "\<And>k. fs' k = fs k \<or> (fs k = None \<and> fs' k = Some Dir)"
  shows "(follow n fs' p = Some (q, File c)) = (follow n fs p = Some (q, File c))"
proof (induction n arbitrary: p)
  case 0
  have "lookup fs' p = lookup fs p \<or> (lookup fs p = None \<and> lookup fs' p = Some Dir)"
    using ext [of p] by (simp add: lookup_def)
  then show ?case
  proof
    assume "lookup fs' p = lookup fs p"
    then show ?thesis by simp
  next
    assume "lookup fs p = None \<and> lookup fs' p = Some Dir"
    then show ?thesis by simp
  qed
next
  case (Suc n)
  have "lookup fs' p = lookup fs p \<or> (lookup fs p = None \<and> lookup fs' p = Some Dir)"
    using ext [of p] by (simp add: lookup_def)
  then show ?case
  proof
    assume e: "lookup fs' p = lookup fs p"
    show ?thesis
    proof (cases "lookup fs p")
      case None
      then show ?thesis using e by simp
    next
      case (Some nd)
      then show ?thesis using e Suc.IH by (cases nd) simp_all
    qed
  next
    assume "lookup fs p = None \<and> lookup fs' p = Some Dir"
    then show ?thesis by simp
  qed
qed

lemma readFile_extends:
  assumes ext: "\<And>k. fs' k = fs k \<or> (fs k = None \<and> fs' k = Some Dir)"
  shows "readFile fs' p = readFile fs p"
proof -
  have a: "(readFile g p = Some c) = (\<exists>q. follow 40 g p = Some (q, File c))" for g c
    by (auto simp: readFile_def stat_def split: option.splits node.splits)
  have "(readFile fs' p = Some c) = (readFile fs p = Some c)" for c
    by (simp add: a follow_file_extends [OF ext])
  then show ?thesis
    by (metis option.exhaust)
qed

lemma loadProfilesConfig_extends:
  assumes ext: "\<And>k. fs' k = fs k \<or> (fs k = None \<and> fs' k = Some Dir)"
  shows "loadProfilesConfig e fs' = loadProfilesConfig e fs"
  by (simp add: loadProfilesConfig_def readJson_def readFile_extends [OF ext])

subsection \<open>Creating a profile\<close>

lemma settings_first:
  "sharedItems = \<lparr>item_name = ''settings.json'', item_type = file_item, item_required = True\<rparr>
                   # tl sharedItems"
  by (simp add: sharedItems_def)

lemma source_settings:
  "source_of e \<lparr>item_name = ''settings.json'', item_type = file_item, item_required = True\<rparr>
     = join (mainConfig e) ''settings.json''"
  by (simp add: source_of_def)

lemma settings_path:
  "join (mainConfig e) ''settings.json'' = path_normalize (HOME e) @ [''.claude'', ''settings.json'']"
  by (simp add: join_plain plain_def normalize_mainConfig) (simp add: mainConfig_path)

text \<open>
  Claim C1, as amended. For a valid identifier whose private directory does not exist,
  when the shared root exists and has no entry \<open>settings.json\<close> and the private
  directory can be created, \<open>createProfile\<close> fails with the error for the missing
  required file. What it leaves behind is the file system with the new directory, and the
  metadata document read from it is the one read before: no entry has been added.
\<close>

theorem createProfile_missing_settings:
  assumes valid: "isValidProfileName nm"
    and absent: "\<not> existsSync fs (getProfilePath e nm)"
    and root: "existsSync fs (mainConfig e)"
    and nosettings: "lookup fs (join (mainConfig e) ''settings.json'') = None"
    and mk: "fst (mkdir fs (getProfilePath e nm))"
  shows "createProfile e now1 now2 nm fs =
           (Inl (RequiredFileNotFound (join (mainConfig e) ''settings.json'')),
            snd (mkdir fs (getProfilePath e nm)))
         \<and> loadProfilesConfig e (snd (createProfile e now1 now2 nm fs)) = loadProfilesConfig e fs"
proof -
  let ?pp = "getProfilePath e nm"
  let ?src = "join (mainConfig e) ''settings.json''"
  obtain fs1 where m: "mkdir fs ?pp = (True, fs1)"
    using mk by (cases "mkdir fs ?pp") auto
  have pp: "?pp = path_normalize (HOME e) @ [''.claude-'' @ nm]"
    using valid by (simp add: getProfilePath_path valid_no_slash)
  have np: "\<not> prefix ?src ?pp"
    by (simp add: pp settings_path)
  have "fs1 ?src = fs ?src"
    using mkdir_adds_dirs [OF m, of ?src] np by auto
  then have "lookup fs1 ?src = None"
    using nosettings by (auto simp: lookup_def split: if_splits)
  then have nex: "\<not> existsSync fs1 ?src"
    by (simp add: existsSync_def stat_def)
  have "createSymlinks e nm fs1 = (Inl (RequiredFileNotFound ?src), fs1)"
    unfolding createSymlinks_def
    by (subst settings_first) (simp add: source_settings nex)
  then have 1: "createProfile e now1 now2 nm fs = (Inl (RequiredFileNotFound ?src), fs1)"
    using valid absent root m by (simp add: createProfile_def)
  have ext: "\<And>k. fs1 k = fs k \<or> (fs k = None \<and> fs1 k = Some Dir)"
    using mkdir_adds_dirs [OF m] by blast
  have 2: "loadProfilesConfig e fs1 = loadProfilesConfig e fs"
    by (rule loadProfilesConfig_extends [OF ext])
  from 1 2 m show ?thesis by simp
qed

lemma valid_work: "isValidProfileName ''work''"
  by code_simp

lemma ex_settings: "join (mainConfig ex_env) ''settings.json'' = [''home'', ''u'', ''.claude'', ''settings.json'']"
  by code_simp

theorem createProfile_missing_settings_witness:
  "isValidProfileName ''work''
   \<and> \<not> existsSync nosettings_fs (getProfilePath ex_env ''work'')
   \<and> existsSync nosettings_fs (mainConfig ex_env)
   \<and> lookup nosettings_fs (join (mainConfig ex_env) ''settings.json'') = None
   \<and> fst (mkdir nosettings_fs (getProfilePath ex_env ''work''))
   \<and> fst (createProfile ex_env 5000 5001 ''work'' nosettings_fs) =
       Inl (RequiredFileNotFound [''home'', ''u'', ''.claude'', ''settings.json''])
   \<and> loadProfilesConfig ex_env (snd (createProfile ex_env 5000 5001 ''work'' nosettings_fs)) =
       Config stale_config"
proof -
  have a: "isValidProfileName ''work''" by (rule valid_work)
  have b: "\<not> existsSync nosettings_fs (getProfilePath ex_env ''work'')"
    by (simp add: ex_paths existsSync_def stat_def lookup_def nosettings_fs_def)
  have c: "existsSync nosettings_fs (mainConfig ex_env)"
    by (simp add: ex_paths existsSync_def stat_def lookup_def nosettings_fs_def)
  have d: "lookup nosettings_fs (join (mainConfig ex_env) ''settings.json'') = None"
    by (simp add: ex_settings lookup_def nosettings_fs_def)
  have e: "fst (mkdir nosettings_fs (getProfilePath ex_env ''work''))"
    by (simp add: ex_paths mkdir_def lookup_def nosettings_fs_def)
  have f: "loadProfilesConfig ex_env nosettings_fs = Config stale_config"
    by (simp add: ex_paths loadProfilesConfig_def readJson_def readFile_def stat_def lookup_def
        nosettings_fs_def)
  note t = createProfile_missing_settings [OF a b c d e, of 5000 5001]
  have g: "fst (createProfile ex_env 5000 5001 ''work'' nosettings_fs) =
       Inl (RequiredFileNotFound [''home'', ''u'', ''.claude'', ''settings.json''])"
    using conjunct1 [OF t] by (simp add: ex_settings)
  have h: "loadProfilesConfig ex_env (snd (createProfile ex_env 5000 5001 ''work'' nosettings_fs)) =
       Config stale_config"
    using conjunct2 [OF t] f by (simp only:)
  from a b c d e g h show ?thesis by (intro conjI)
qed

text \<open>
  The claim as stated fails where an earlier check of \<open>createProfile\<close> fires: with the
  private directory present, the error is that the profile already exists.
\<close>

theorem createProfile_existing_profile_counterexample:
  "existsSync existing_fs (mainConfig ex_env)
   \<and> lookup existing_fs (join (mainConfig ex_env) ''settings.json'') = None
   \<and> createProfile ex_env 5000 5001 ''work'' existing_fs = (Inl (AlreadyExists ''work''), existing_fs)
   \<and> AlreadyExists ''work'' \<noteq> RequiredFileNotFound (join (mainConfig ex_env) ''settings.json'')"
proof -
  have a: "isValidProfileName ''work''" by (rule valid_work)
  have b: "existsSync existing_fs (getProfilePath ex_env ''work'')"
    by (simp add: ex_paths existsSync_def stat_def lookup_def existing_fs_def)
  have c: "existsSync existing_fs (mainConfig ex_env)"
    by (simp add: ex_paths existsSync_def stat_def lookup_def existing_fs_def)
  have d: "lookup existing_fs (join (mainConfig ex_env) ''settings.json'') = None"
    by (simp add: ex_settings lookup_def existing_fs_def)
  have "createProfile ex_env 5000 5001 ''work'' existing_fs = (Inl (AlreadyExists ''work''), existing_fs)"
    using a b by (simp add: createProfile_def)
  with c d show ?thesis by simp
qed

subsection \<open>What link creation leaves untouched\<close>

lemma rm_rf_frame: "\<not> prefix p k \<Longrightarrow> rm_rf fs p k = fs k"
  by (cases "lookup fs p") (auto simp: rm_rf_def split: node.splits)

lemma rm_rf_removes: "lookup fs p \<noteq> None \<Longrightarrow> p \<noteq> [] \<Longrightarrow> lookup (rm_rf fs p) p = None"
  by (cases "lookup fs p") (auto simp: rm_rf_def lookup_def split: node.splits)

lemma symlink_result:
  "symlink fs src tgt = Some fs' \<Longrightarrow> fs' = fs(tgt \<mapsto> Symlink src) \<and> lookup fs tgt = None"
  by (auto simp: symlink_def split: if_splits)

lemma createSymlinks_loop_frame:
  "createSymlinks_loop e pp items created fs = (r, fs') \<Longrightarrow>
     (\<And>item. item \<in> set items \<Longrightarrow> \<not> prefix (target_of pp item) k) \<Longrightarrow> fs' k = fs k"
proof (induction items arbitrary: created fs)
  case Nil
  then show ?case by simp
next
  case (Cons item items)
  let ?src = "source_of e item"
  let ?tgt = "target_of pp item"
  let ?mid = "if existsSync fs ?tgt then rm_rf fs ?tgt else fs"
  have nk: "\<not> prefix ?tgt k" using Cons.prems(2) by simp
  then have kt: "k \<noteq> ?tgt" by auto
  have rest: "\<And>item. item \<in> set items \<Longrightarrow> \<not> prefix (target_of pp item) k"
    using Cons.prems(2) by simp
  have mid: "?mid k = fs k" using nk by (simp add: rm_rf_frame)
  consider (missing) "\<not> existsSync fs ?src" "item_required item"
    | (skip) "createSymlinks_loop e pp items created fs = (r, fs')"
    | (fail) "symlink ?mid ?src ?tgt = None" "fs' = ?mid"
    | (link) fs2 c2 where "symlink ?mid ?src ?tgt = Some fs2"
        "createSymlinks_loop e pp items c2 fs2 = (r, fs')"
    using Cons.prems(1) by (auto split: if_splits option.splits)
  then show ?case
  proof cases
    case missing
    then show ?thesis using Cons.prems(1) by simp
  next
    case skip
    from Cons.IH [OF skip rest] show ?thesis .
  next
    case fail
    then show ?thesis using mid by simp
  next
    case link
    from symlink_result [OF link(1)] have "fs2 k = ?mid k" using kt by simp
    moreover from Cons.IH [OF link(2) rest] have "fs' k = fs2 k" .
    ultimately show ?thesis using mid by simp
  qed
qed

subsection \<open>The authenticated flag of a new profile\<close>

lemma existsSync_nonlink:
  "\<not> isSymbolicLink fs p \<Longrightarrow> existsSync fs p = (lookup fs p \<noteq> None)"
proof (cases "lookup fs p")
  case None
  then show ?thesis by (simp add: existsSync_def stat_def)
next
  case (Some nd)
  assume "\<not> isSymbolicLink fs p"
  with Some show ?thesis
    by (cases nd) (simp_all add: existsSync_def stat_def isSymbolicLink_def)
qed

lemma write_target_nonlink:
  "write_target n fs p = Some q \<Longrightarrow> \<not> isSymbolicLink fs p \<Longrightarrow> q = p"
  using write_target_step [of n fs p q] by (auto simp: isSymbolicLink_def)

lemma saveProfileMetadata_success:
  "saveProfileMetadata e now nm fs = (Inr u, fs') \<Longrightarrow>
     \<exists>c q. loadProfilesConfig e fs = Config c
        \<and> write_target 40 fs (profilesConfig e) = Some q
        \<and> fs' = fs(q \<mapsto> File (Json (Config (c\<lparr>profiles :=
               assign nm \<lparr>meta_name = nm, meta_createdAt = Some now, meta_shellAlias = nm\<rparr>
                 (profiles c)\<rparr>))))"
  by (auto simp: saveProfileMetadata_def writeJson_def writeFile_def
      split: json_value.splits option.splits)

lemma createProfile_success:
  assumes "createProfile e now1 now2 nm fs = (Inr p, fs')"
  shows "isValidProfileName nm \<and> \<not> existsSync fs (getProfilePath e nm)
         \<and> existsSync fs (mainConfig e)
         \<and> (\<exists>fs1 created fs2.
               mkdir fs (getProfilePath e nm) = (True, fs1)
             \<and> createSymlinks e nm fs1 = (Inr created, fs2)
             \<and> saveProfileMetadata e now1 nm fs2 = (Inr (), fs')
             \<and> p = \<lparr>profile_name = nm, profile_path = getProfilePath e nm,
                     configPath = getProfilePath e nm,
                     credentialsPath = getProfileCredentialsPath e nm,
                     isAuthenticated = existsSync fs' (getProfileCredentialsPath e nm),
                     createdAt = Some now2\<rparr>)"
  using assms
  by (auto simp: createProfile_def split: if_splits prod.splits sum.splits bool.splits)

lemma outside_profile_kept:
  assumes ns: "CHR ''/'' \<notin> set nm"
    and m: "mkdir fs (getProfilePath e nm) = (True, fs1)"
    and c: "createSymlinks e nm fs1 = (r, fs2)"
    and k: "k = path_normalize (HOME e) @ [x]" "x \<noteq> ''.claude-'' @ nm"
  shows "fs2 k = fs k"
proof -
  let ?pp = "getProfilePath e nm"
  have pp: "?pp = path_normalize (HOME e) @ [''.claude-'' @ nm]"
    using ns by (rule getProfilePath_path)
  have "\<not> prefix k ?pp" using k by (simp add: pp)
  then have 1: "fs1 k = fs k" using mkdir_adds_dirs [OF m, of k] by auto
  have "\<not> prefix (target_of ?pp item) k" if "item \<in> set sharedItems" for item
    using target_of_path [OF that normalize_getProfilePath, of e nm] k by (simp add: pp)
  then have "fs2 k = fs1 k"
    using createSymlinks_loop_frame [OF c [unfolded createSymlinks_def]] by blast
  with 1 show ?thesis by simp
qed

text \<open>
  Claim C9, as amended. When \<open>createProfile\<close> succeeds, the authenticated flag of the
  profile it returns is the existence of the credentials file in the file system it leaves
  behind. \<open>createProfile\<close> itself leaves the entry at the credentials path as it was:
  when neither the metadata file nor the credentials path is a symbolic link, the flag is
  true exactly when there was an entry at the credentials path before the call, so it is
  false for a profile that has no credentials file yet and true when one was left there.
\<close>

theorem createProfile_authenticated_flag:
  assumes "createProfile e now1 now2 nm fs = (Inr p, fs')"
  shows "isAuthenticated p = existsSync fs' (getProfileCredentialsPath e nm)
         \<and> (\<not> isSymbolicLink fs (profilesConfig e)
              \<and> \<not> isSymbolicLink fs (getProfileCredentialsPath e nm)
            \<longrightarrow> isAuthenticated p = (lookup fs (getProfileCredentialsPath e nm) \<noteq> None))"
proof -
  let ?cred = "getProfileCredentialsPath e nm"
  let ?cfg = "profilesConfig e"
  from createProfile_success [OF assms] obtain fs1 created fs2 where
    v: "isValidProfileName nm"
    and m: "mkdir fs (getProfilePath e nm) = (True, fs1)"
    and c: "createSymlinks e nm fs1 = (Inr created, fs2)"
    and s: "saveProfileMetadata e now1 nm fs2 = (Inr (), fs')"
    and p: "isAuthenticated p = existsSync fs' ?cred"
    by auto
  have ns: "CHR ''/'' \<notin> set nm" using v by (rule valid_no_slash)
  have cred: "?cred = path_normalize (HOME e) @ [''.claude-'' @ nm @ ''.json'']"
    using ns by (rule getProfileCredentialsPath_path)
  have cfg: "?cfg = path_normalize (HOME e) @ [''.cc-profiles.json'']"
    by (rule profilesConfig_path)
  have k1: "fs2 ?cred = fs ?cred"
    using outside_profile_kept [OF ns m c cred] by simp
  have k2: "fs2 ?cfg = fs ?cfg"
    using outside_profile_kept [OF ns m c cfg] by simp
  have "isAuthenticated p = (lookup fs ?cred \<noteq> None)"
    if a: "\<not> isSymbolicLink fs ?cfg" and b: "\<not> isSymbolicLink fs ?cred"
  proof -
    from saveProfileMetadata_success [OF s] obtain q d where
      q: "write_target 40 fs2 ?cfg = Some q" "fs' = fs2(q \<mapsto> File d)"
      by blast
    have "lookup fs2 ?cfg = lookup fs ?cfg" using k2 by (simp add: lookup_def)
    then have "\<not> isSymbolicLink fs2 ?cfg" using a by (simp add: isSymbolicLink_def)
    then have "q = ?cfg" using write_target_nonlink [OF q(1)] by simp
    moreover have "?cred \<noteq> ?cfg" by (simp add: cred cfg)
    ultimately have "fs' ?cred = fs ?cred" using q(2) k1 by simp
    then have l: "lookup fs' ?cred = lookup fs ?cred" by (simp add: lookup_def)
    then have "\<not> isSymbolicLink fs' ?cred" using b by (simp add: isSymbolicLink_def)
    then show ?thesis using p l by (simp add: existsSync_nonlink)
  qed
  with p show ?thesis by blast
qed

text \<open>
  The claim as stated fails when a credentials file is already at the profile's
  credentials path: creation succeeds and the flag is true.
\<close>

theorem createProfile_stale_credentials_counterexample:
  "isValidProfileName ''work''
   \<and> \<not> existsSync leftover_fs (getProfilePath ex_env ''work'')
   \<and> fst (createProfile ex_env 5000 5001 ''work'' leftover_fs) = Inr (work_profile True)
   \<and> isAuthenticated (work_profile True)"
  by code_simp

lemma create_clean: "fst (createProfile ex_env 5000 5001 ''work'' clean_fs) = Inr (work_profile False)"
  by code_simp

lemma create_leftover: "fst (createProfile ex_env 5000 5001 ''work'' leftover_fs) = Inr (work_profile True)"
  by code_simp

theorem createProfile_authenticated_flag_witness:
  "createProfile ex_env 5000 5001 ''work'' clean_fs =
     (Inr (work_profile False), snd (createProfile ex_env 5000 5001 ''work'' clean_fs))
   \<and> \<not> isSymbolicLink clean_fs (profilesConfig ex_env)
   \<and> \<not> isSymbolicLink clean_fs (getProfileCredentialsPath ex_env ''work'')
   \<and> lookup clean_fs (getProfileCredentialsPath ex_env ''work'') = None
   \<and> \<not> isAuthenticated (work_profile False)
   \<and> \<not> existsSync (snd (createProfile ex_env 5000 5001 ''work'' clean_fs))
          (getProfileCredentialsPath ex_env ''work'')
   \<and> createProfile ex_env 5000 5001 ''work'' leftover_fs =
     (Inr (work_profile True), snd (createProfile ex_env 5000 5001 ''work'' leftover_fs))
   \<and> existsSync (snd (createProfile ex_env 5000 5001 ''work'' leftover_fs))
          (getProfileCredentialsPath ex_env ''work'')"
proof -
  have a: "createProfile ex_env 5000 5001 ''work'' clean_fs =
     (Inr (work_profile False), snd (createProfile ex_env 5000 5001 ''work'' clean_fs))"
    using create_clean by (simp add: prod_eq_iff)
  have b: "createProfile ex_env 5000 5001 ''work'' leftover_fs =
     (Inr (work_profile True), snd (createProfile ex_env 5000 5001 ''work'' leftover_fs))"
    using create_leftover by (simp add: prod_eq_iff)
  have c: "\<not> isSymbolicLink clean_fs (profilesConfig ex_env)"
    "\<not> isSymbolicLink clean_fs (getProfileCredentialsPath ex_env ''work'')"
    "lookup clean_fs (getProfileCredentialsPath ex_env ''work'') = None"
    by (simp_all add: ex_paths isSymbolicLink_def lookup_def clean_fs_def)
  have d: "\<not> isAuthenticated (work_profile False)" "isAuthenticated (work_profile True)"
    by (simp_all add: work_profile_def)
  from createProfile_authenticated_flag [OF a] d(1)
  have e: "\<not> existsSync (snd (createProfile ex_env 5000 5001 ''work'' clean_fs))
          (getProfileCredentialsPath ex_env ''work'')"
    by simp
  from createProfile_authenticated_flag [OF b] d(2)
  have f: "existsSync (snd (createProfile ex_env 5000 5001 ''work'' leftover_fs))
          (getProfileCredentialsPath ex_env ''work'')"
    by simp
  from a c d(1) e b f show ?thesis by (intro conjI)
qed

subsection \<open>Removing a profile\<close>

text \<open>
  Claim C4. \<open>removeProfile\<close> and \<open>removeSymlinks\<close> do not check the identifier, and
  \<open>path.join\<close> normalises \<open>.claude-x/../.claude\<close> to \<open>.claude\<close>: for the identifier
  \<open>x/../.claude\<close> the profile directory is the shared configuration root itself.
  \<open>removeProfile\<close> then succeeds and deletes the shared root with everything below it,
  and the main credentials file; \<open>removeSymlinks\<close> unlinks a shared \<open>settings.json\<close>
  that is a symbolic link.
\<close>

theorem removeProfile_path_traversal_deletes_shared_root:
  "getProfilePath ex_env ''x/../.claude'' = mainConfig ex_env
   \<and> existsSync shared_fs (mainConfig ex_env)
   \<and> existsSync shared_fs (join (mainConfig ex_env) ''settings.json'')
   \<and> fst (removeProfile ex_env ''x/../.claude'' shared_fs) = Inr ()
   \<and> lookup (snd (removeProfile ex_env ''x/../.claude'' shared_fs)) (mainConfig ex_env) = None
   \<and> lookup (snd (removeProfile ex_env ''x/../.claude'' shared_fs))
         (join (mainConfig ex_env) ''settings.json'') = None
   \<and> lookup (snd (removeProfile ex_env ''x/../.claude'' shared_fs))
         [''home'', ''u'', ''.claude'', ''agents'', ''helper.md''] = None
   \<and> lookup (snd (removeProfile ex_env ''x/../.claude'' shared_fs)) (mainCredentials ex_env) = None
   \<and> lookup dotfiles_fs (join (mainConfig ex_env) ''settings.json'') =
         Some (Symlink [''home'', ''u'', ''dotfiles'', ''settings.json''])
   \<and> fst (removeSymlinks ex_env ''x/../.claude'' dotfiles_fs) = Inr ()
   \<and> lookup (snd (removeSymlinks ex_env ''x/../.claude'' dotfiles_fs))
         (join (mainConfig ex_env) ''settings.json'') = None"
  by code_simp

subsection \<open>Creating the links twice\<close>

lemma createSymlinks_loop_linked:
  assumes "\<And>item. item \<in> set items \<Longrightarrow>
      (if existsSync fs (source_of e item)
       then existsSync fs (target_of pp item) \<and> isSymbolicLink fs (target_of pp item)
       else \<not> item_required item)"
  shows "createSymlinks_loop e pp items created fs = (Inr created, fs)"
  using assms
proof (induction items)
  case Nil
  then show ?case by simp
next
  case (Cons item items)
  have "createSymlinks_loop e pp items created fs = (Inr created, fs)"
    using Cons by simp
  moreover have "if existsSync fs (source_of e item)
       then existsSync fs (target_of pp item) \<and> isSymbolicLink fs (target_of pp item)
       else \<not> item_required item"
    using Cons.prems by simp
  ultimately show ?case by (simp split: if_splits)
qed

lemma visited_mono: "set (visited n fs p) \<subseteq> set (visited (Suc n) fs p)"
proof (induction n arbitrary: p)
  case 0
  show ?case by simp
next
  case (Suc n)
  show ?case
  proof (cases "lookup fs p")
    case None
    then show ?thesis by simp
  next
    case (Some nd)
    show ?thesis
    proof (cases nd)
      case (Symlink t)
      have "visited (Suc n) fs p = p # visited n fs t"
        and "visited (Suc (Suc n)) fs p = p # visited (Suc n) fs t"
        using Some Symlink by simp_all
      then show ?thesis using Suc [of t] by auto
    qed (use Some in simp_all)
  qed
qed

lemma follow_cong:
  "(\<And>k. k \<in> set (visited n fs p) \<Longrightarrow> fs' k = fs k) \<Longrightarrow> follow n fs' p = follow n fs p"
proof (induction n arbitrary: p)
  case 0
  have "fs' p = fs p" using 0 by simp
  then have "lookup fs' p = lookup fs p" by (simp add: lookup_def)
  then show ?case by simp
next
  case (Suc n)
  have "fs' p = fs p" using Suc.prems by simp
  then have l: "lookup fs' p = lookup fs p" by (simp add: lookup_def)
  show ?case
  proof (cases "lookup fs p")
    case None
    then show ?thesis using l by simp
  next
    case (Some nd)
    show ?thesis
    proof (cases nd)
      case (Symlink t)
      have v: "visited (Suc n) fs p = p # visited n fs t" using Some Symlink by simp
      have "follow n fs' t = follow n fs t"
      proof (rule Suc.IH)
        fix k assume "k \<in> set (visited n fs t)"
        then have "k \<in> set (visited (Suc n) fs p)" by (simp only: v) simp
        then show "fs' k = fs k" by (rule Suc.prems)
      qed
      then show ?thesis using l Some Symlink by simp
    qed (use Some l in simp_all)
  qed
qed

lemma follow_cong_less:
  assumes "\<And>k. k \<in> set (visited (Suc n) fs p) \<Longrightarrow> fs' k = fs k"
  shows "follow n fs' p = follow n fs p"
  by (rule follow_cong) (rule assms, use visited_mono in blast)

lemma sharedItems_same_name:
  "i \<in> set sharedItems \<Longrightarrow> j \<in> set sharedItems \<Longrightarrow> item_name i = item_name j \<Longrightarrow> i = j"
  by (auto simp: sharedItems_def)

lemma siblings: "prefix (pp @ [a]) k \<Longrightarrow> prefix (pp @ [b]) k \<Longrightarrow> a = b"
  by (auto simp: prefix_def)

lemma clobberedI:
  "item \<in> set sharedItems \<Longrightarrow> replaced e pp fs item \<Longrightarrow> prefix (target_of pp item) k
     \<Longrightarrow> clobbered e pp fs k"
  by (auto simp: clobbered_def list_ex_iff)

lemma clobbered_target:
  assumes npp: "path_normalize pp = pp" and i: "i \<in> set sharedItems"
    and c: "clobbered e pp fs (target_of pp i)"
  shows "replaced e pp fs i"
proof -
  from c obtain j where j: "j \<in> set sharedItems" "replaced e pp fs j"
      "prefix (target_of pp j) (target_of pp i)"
    by (auto simp: clobbered_def list_ex_iff)
  have "prefix (pp @ [item_name j]) (pp @ [item_name i])"
    using j(3) target_of_path [OF j(1) npp] target_of_path [OF i npp] by simp
  then have "item_name j = item_name i" by simp
  with j(1) i have "j = i" by (rule sharedItems_same_name)
  with j(2) show ?thesis by simp
qed

lemma undisturbed_source:
  "undisturbed e pp fs \<Longrightarrow> item \<in> set sharedItems \<Longrightarrow>
     k \<in> set (visited 40 fs (source_of e item)) \<Longrightarrow> \<not> clobbered e pp fs k"
  unfolding undisturbed_def list_all_iff by blast

lemma undisturbed_spare:
  "undisturbed e pp fs \<Longrightarrow> item \<in> set sharedItems \<Longrightarrow> replaced e pp fs item \<Longrightarrow>
     follow 39 fs (source_of e item) \<noteq> None"
  unfolding undisturbed_def list_all_iff by blast

lemma undisturbed_target:
  assumes "undisturbed e pp fs" and "item \<in> set sharedItems"
    and "existsSync fs (source_of e item)"
    and "lookup fs (target_of pp item) = Some (Symlink t)"
    and "k \<in> set (visited 39 fs t)"
  shows "\<not> clobbered e pp fs k"
proof -
  from assms(1,2,3) have
    "case lookup fs (target_of pp item) of
       Some (Symlink t) \<Rightarrow> list_all (\<lambda>k. \<not> clobbered e pp fs k) (visited 39 fs t)
     | _ \<Rightarrow> True"
    unfolding undisturbed_def list_all_iff by blast
  then have "list_all (\<lambda>k. \<not> clobbered e pp fs k) (visited 39 fs t)"
    by (simp only: assms(4) option.case node.case)
  then show ?thesis using assms(5) by (simp add: list_all_iff)
qed

lemma source_agree:
  assumes und: "undisturbed e pp fs" and i: "item \<in> set sharedItems"
    and agree: "\<And>k. \<not> clobbered e pp fs k \<Longrightarrow> fs' k = fs k"
  shows "existsSync fs' (source_of e item) = existsSync fs (source_of e item)"
    and "follow 39 fs' (source_of e item) = follow 39 fs (source_of e item)"
proof -
  have a: "fs' k = fs k" if "k \<in> set (visited 40 fs (source_of e item))" for k
    by (rule agree) (rule undisturbed_source [OF und i that])
  have "follow 40 fs' (source_of e item) = follow 40 fs (source_of e item)"
    by (rule follow_cong) (rule a)
  then show "existsSync fs' (source_of e item) = existsSync fs (source_of e item)"
    by (simp add: existsSync_def stat_def)
  have e: "(40::nat) = Suc 39" by simp
  show "follow 39 fs' (source_of e item) = follow 39 fs (source_of e item)"
    by (rule follow_cong_less) (rule a [unfolded e])
qed

lemma target_agree:
  assumes und: "undisturbed e pp fs" and i: "item \<in> set sharedItems"
    and src: "existsSync fs (source_of e item)"
    and agree: "\<And>k. \<not> clobbered e pp fs k \<Longrightarrow> fs' k = fs k"
    and same: "fs' (target_of pp item) = fs (target_of pp item)"
  shows "existsSync fs' (target_of pp item) = existsSync fs (target_of pp item)"
    and "isSymbolicLink fs' (target_of pp item) = isSymbolicLink fs (target_of pp item)"
proof -
  let ?tgt = "target_of pp item"
  have l: "lookup fs' ?tgt = lookup fs ?tgt" using same by (simp add: lookup_def)
  show s: "isSymbolicLink fs' ?tgt = isSymbolicLink fs ?tgt"
    by (simp add: isSymbolicLink_def l)
  show "existsSync fs' ?tgt = existsSync fs ?tgt"
  proof (cases "isSymbolicLink fs ?tgt")
    case False
    then have "\<not> isSymbolicLink fs' ?tgt" using s by simp
    then show ?thesis using False l by (simp add: existsSync_nonlink)
  next
    case True
    then obtain t where t: "lookup fs ?tgt = Some (Symlink t)"
      by (auto simp: isSymbolicLink_def split: option.splits node.splits)
    have t': "lookup fs' ?tgt = Some (Symlink t)" using l t by simp
    have "follow 39 fs' t = follow 39 fs t"
      by (rule follow_cong) (rule agree, rule undisturbed_target [OF und i src t])
    then show ?thesis
      by (simp add: existsSync_def stat_Symlink [OF t] stat_Symlink [OF t'])
  qed
qed

lemma createSymlinks_loop_first:
  assumes und: "undisturbed e pp fs" and npp: "path_normalize pp = pp"
  shows "createSymlinks_loop e pp items created fs_c = (Inr out, fs') \<Longrightarrow>
     set items \<subseteq> set sharedItems \<Longrightarrow> distinct (map item_name items) \<Longrightarrow>
     \<forall>k. \<not> clobbered e pp fs k \<longrightarrow> fs_c k = fs k \<Longrightarrow>
     \<forall>i \<in> set items. \<forall>k. prefix (target_of pp i) k \<longrightarrow> fs_c k = fs k \<Longrightarrow>
     out = created @
        map (\<lambda>item. \<lparr>link_source = source_of e item, link_target = target_of pp item,
                      link_type = item_type item, link_required = item_required item\<rparr>)
          (filter (replaced e pp fs) items)
     \<and> (\<forall>k. \<not> clobbered e pp fs k \<longrightarrow> fs' k = fs k)
     \<and> (\<forall>i \<in> set items.
          (replaced e pp fs i \<longrightarrow> fs' (target_of pp i) = Some (Symlink (source_of e i)))
          \<and> (\<not> existsSync fs (source_of e i) \<longrightarrow> \<not> item_required i))"
proof (induction items arbitrary: created fs_c)
  case Nil
  then show ?case by simp
next
  case (Cons item items)
  let ?src = "source_of e item"
  let ?tgt = "target_of pp item"
  let ?mid = "if existsSync fs_c ?tgt then rm_rf fs_c ?tgt else fs_c"
  let ?d = "\<lparr>link_source = ?src, link_target = ?tgt,
             link_type = item_type item, link_required = item_required item\<rparr>"
  have i: "item \<in> set sharedItems" and sub: "set items \<subseteq> set sharedItems"
    using Cons.prems(2) by simp_all
  have dist: "distinct (map item_name items)"
    using Cons.prems(3) by simp
  have fresh: "item_name j \<noteq> item_name item" if "j \<in> set items" for j
  proof
    assume "item_name j = item_name item"
    then have "item_name item \<in> item_name ` set items" using that by (metis imageI)
    then show False using Cons.prems(3) by simp
  qed
  have tp: "?tgt = pp @ [item_name item]" using i npp by (rule target_of_path)
  have tpj: "target_of pp j = pp @ [item_name j]" if "j \<in> set items" for j
    using that sub npp by (intro target_of_path) auto
  have apart: "\<not> prefix ?tgt k" if "j \<in> set items" "prefix (target_of pp j) k" for j k
  proof
    assume "prefix ?tgt k"
    then have "prefix (pp @ [item_name item]) k" by (simp only: tp)
    moreover have "prefix (pp @ [item_name j]) k" using that(2) by (simp only: tpj [OF that(1)])
    ultimately have "item_name item = item_name j" by (rule siblings)
    with fresh [OF that(1)] show False by simp
  qed
  have agree: "\<And>k. \<not> clobbered e pp fs k \<Longrightarrow> fs_c k = fs k"
    using Cons.prems(4) by blast
  have d1: "existsSync fs_c ?src = existsSync fs ?src"
    by (rule source_agree(1) [OF und i agree])
  have same: "fs_c ?tgt = fs ?tgt" using Cons.prems(5) by simp
  have unt: "\<forall>j \<in> set items. \<forall>k. prefix (target_of pp j) k \<longrightarrow> fs_c k = fs k"
    using Cons.prems(5) by simp
  show ?case
  proof (cases "existsSync fs ?src")
    case False
    then have ns: "\<not> existsSync fs_c ?src" using d1 by simp
    have nr: "\<not> item_required item" using Cons.prems(1) ns by (auto split: if_splits)
    have run: "createSymlinks_loop e pp items created fs_c = (Inr out, fs')"
      using Cons.prems(1) ns nr by simp
    have nrep: "\<not> replaced e pp fs item" using False by (simp add: replaced_def)
    from Cons.IH [OF run sub dist Cons.prems(4) unt] show ?thesis using nrep nr False by simp
  next
    case True
    have d2: "existsSync fs_c ?tgt = existsSync fs ?tgt"
      by (rule target_agree(1) [OF und i True agree same])
    have d3: "isSymbolicLink fs_c ?tgt = isSymbolicLink fs ?tgt"
      by (rule target_agree(2) [OF und i True agree same])
    have sc: "existsSync fs_c ?src" using True d1 by simp
    show ?thesis
    proof (cases "replaced e pp fs item")
      case False
      then have sk: "existsSync fs_c ?tgt \<and> isSymbolicLink fs_c ?tgt"
        using True d2 d3 by (simp add: replaced_def)
      have run: "createSymlinks_loop e pp items created fs_c = (Inr out, fs')"
        using Cons.prems(1) sc sk by simp
      from Cons.IH [OF run sub dist Cons.prems(4) unt] show ?thesis using False True by simp
    next
      case rep: True
      then have nsk: "\<not> (existsSync fs_c ?tgt \<and> isSymbolicLink fs_c ?tgt)"
        using d2 d3 by (simp add: replaced_def)
      have step: "createSymlinks_loop e pp (item # items) created fs_c =
          (case symlink ?mid ?src ?tgt of
             None \<Rightarrow> (Inl IOError, ?mid)
           | Some fs2 \<Rightarrow> createSymlinks_loop e pp items (created @ [?d]) fs2)"
        using sc nsk by (simp only: createSymlinks_loop.simps) simp
      obtain fs2 where sl: "symlink ?mid ?src ?tgt = Some fs2"
        and run: "createSymlinks_loop e pp items (created @ [?d]) fs2 = (Inr out, fs')"
        using Cons.prems(1) unfolding step by (cases "symlink ?mid ?src ?tgt") simp_all
      have fs2: "fs2 = ?mid(?tgt \<mapsto> Symlink ?src)" using symlink_result [OF sl] by simp
      have ch: "fs2 k = fs_c k" if "\<not> prefix ?tgt k" for k
      proof -
        from that have "k \<noteq> ?tgt" by auto
        then show ?thesis using that by (simp add: fs2 rm_rf_frame)
      qed
      have agree2: "\<forall>k. \<not> clobbered e pp fs k \<longrightarrow> fs2 k = fs k"
      proof (intro allI impI)
        fix k assume c: "\<not> clobbered e pp fs k"
        have "\<not> prefix ?tgt k" using c clobberedI [OF i rep] by blast
        then show "fs2 k = fs k" using ch agree [OF c] by simp
      qed
      have unt2: "\<forall>j \<in> set items. \<forall>k. prefix (target_of pp j) k \<longrightarrow> fs2 k = fs k"
      proof (intro ballI allI impI)
        fix j k assume j: "j \<in> set items" and p: "prefix (target_of pp j) k"
        have "fs_c k = fs k" using unt j p by blast
        then show "fs2 k = fs k" using ch [OF apart [OF j p]] by simp
      qed
      note IH = Cons.IH [OF run sub dist agree2 unt2]
      have "fs' ?tgt = fs2 ?tgt"
      proof (rule createSymlinks_loop_frame [OF run])
        fix j assume "j \<in> set items"
        then show "\<not> prefix (target_of pp j) ?tgt"
          using apart [of j ?tgt] by auto
      qed
      then have "fs' ?tgt = Some (Symlink ?src)" by (simp add: fs2)
      then show ?thesis using IH rep True by simp
    qed
  qed
qed

text \<open>
  Claim C3, as amended. Let no shared source be resolved through an entry at or below a
  target that the call replaces, let every source whose target is replaced resolve with
  one link to spare, and let no symbolic link that is already at the target of an existing
  source be resolved through such an entry. If \<open>createSymlinks\<close> succeeds, then a second
  call succeeds too, leaves the file system exactly as the first call left it, and returns
  the empty list: the descriptors a call returns are those of the links it creates, in the
  order of the shared items, and the second call creates none. After the first call every
  shared source exists or not as before, the target of every existing source is a symbolic
  link that resolves, and it is the link to the source where the call replaced it and the
  entry that was there before where it did not. The identifier is arbitrary, the sources
  may be symbolic links, and so may the targets, whatever they point to.
\<close>

theorem createSymlinks_twice:
  assumes und: "undisturbed e (getProfilePath e nm) fs"
    and run: "createSymlinks e nm fs = (Inr created, fs1)"
  shows "createSymlinks e nm fs1 = (Inr [], fs1)
         \<and> created =
             map (\<lambda>item. \<lparr>link_source = source_of e item,
                           link_target = target_of (getProfilePath e nm) item,
                           link_type = item_type item, link_required = item_required item\<rparr>)
               (filter (replaced e (getProfilePath e nm) fs) sharedItems)
         \<and> (\<forall>item \<in> set sharedItems.
              existsSync fs1 (source_of e item) = existsSync fs (source_of e item)
              \<and> lookup fs1 (target_of (getProfilePath e nm) item) =
                  (if replaced e (getProfilePath e nm) fs item
                   then Some (Symlink (source_of e item))
                   else lookup fs (target_of (getProfilePath e nm) item))
              \<and> (existsSync fs (source_of e item) \<longrightarrow>
                   existsSync fs1 (target_of (getProfilePath e nm) item)
                   \<and> isSymbolicLink fs1 (target_of (getProfilePath e nm) item)))"
proof -
  let ?pp = "getProfilePath e nm"
  have npp: "path_normalize ?pp = ?pp" by (rule normalize_getProfilePath)
  have run': "createSymlinks_loop e ?pp sharedItems [] fs = (Inr created, fs1)"
    using run by (simp add: createSymlinks_def)
  have dist: "distinct (map item_name sharedItems)" by (simp add: sharedItems_def)
  have first: "created = [] @
        map (\<lambda>item. \<lparr>link_source = source_of e item, link_target = target_of ?pp item,
                      link_type = item_type item, link_required = item_required item\<rparr>)
          (filter (replaced e ?pp fs) sharedItems)
     \<and> (\<forall>k. \<not> clobbered e ?pp fs k \<longrightarrow> fs1 k = fs k)
     \<and> (\<forall>i \<in> set sharedItems.
          (replaced e ?pp fs i \<longrightarrow> fs1 (target_of ?pp i) = Some (Symlink (source_of e i)))
          \<and> (\<not> existsSync fs (source_of e i) \<longrightarrow> \<not> item_required i))"
    by (rule createSymlinks_loop_first [OF und npp run' _ dist]) simp_all
  then have agree: "\<And>k. \<not> clobbered e ?pp fs k \<Longrightarrow> fs1 k = fs k"
    and links: "\<And>i. i \<in> set sharedItems \<Longrightarrow> replaced e ?pp fs i \<Longrightarrow>
                  fs1 (target_of ?pp i) = Some (Symlink (source_of e i))"
    and req: "\<And>i. i \<in> set sharedItems \<Longrightarrow> \<not> existsSync fs (source_of e i) \<Longrightarrow>
                  \<not> item_required i"
    by blast+
  have each: "existsSync fs1 (source_of e item) = existsSync fs (source_of e item)
        \<and> lookup fs1 (target_of ?pp item) =
            (if replaced e ?pp fs item then Some (Symlink (source_of e item))
             else lookup fs (target_of ?pp item))
        \<and> (existsSync fs (source_of e item) \<longrightarrow>
             existsSync fs1 (target_of ?pp item) \<and> isSymbolicLink fs1 (target_of ?pp item))"
    if item: "item \<in> set sharedItems" for item
  proof -
    let ?src = "source_of e item"
    let ?tgt = "target_of ?pp item"
    have s: "existsSync fs1 ?src = existsSync fs ?src"
      by (rule source_agree(1) [OF und item agree])
    have tne: "?tgt \<noteq> []" using target_of_path [OF item npp] by simp
    show ?thesis
    proof (cases "replaced e ?pp fs item")
      case True
      have l: "lookup fs1 ?tgt = Some (Symlink ?src)"
        using links [OF item True] tne by (simp add: lookup_def)
      have "follow 39 fs1 ?src = follow 39 fs ?src"
        by (rule source_agree(2) [OF und item agree])
      then have "follow 39 fs1 ?src \<noteq> None"
        using undisturbed_spare [OF und item True] by simp
      then have "existsSync fs1 ?tgt"
        by (simp add: existsSync_def stat_Symlink [OF l])
      then show ?thesis using s l True by (simp add: isSymbolicLink_def)
    next
      case False
      have "\<not> clobbered e ?pp fs ?tgt"
        using clobbered_target [OF npp item] False by blast
      then have same: "fs1 ?tgt = fs ?tgt" by (rule agree)
      then have l: "lookup fs1 ?tgt = lookup fs ?tgt" by (simp add: lookup_def)
      have t: "existsSync fs1 ?tgt \<and> isSymbolicLink fs1 ?tgt" if src: "existsSync fs ?src"
      proof -
        have "existsSync fs ?tgt \<and> isSymbolicLink fs ?tgt"
          using False src by (simp add: replaced_def)
        then show ?thesis
          using target_agree [OF und item src agree same] by simp
      qed
      show ?thesis using s l False t by simp
    qed
  qed
  have "createSymlinks_loop e ?pp sharedItems [] fs1 = (Inr [], fs1)"
  proof (rule createSymlinks_loop_linked)
    fix item assume item: "item \<in> set sharedItems"
    from each [OF item] req [OF item]
    show "if existsSync fs1 (source_of e item)
       then existsSync fs1 (target_of ?pp item) \<and> isSymbolicLink fs1 (target_of ?pp item)
       else \<not> item_required item"
      by (simp split: if_splits)
  qed
  then have 1: "createSymlinks e nm fs1 = (Inr [], fs1)" by (simp add: createSymlinks_def)
  have 2: "created =
             map (\<lambda>item. \<lparr>link_source = source_of e item, link_target = target_of ?pp item,
                           link_type = item_type item, link_required = item_required item\<rparr>)
               (filter (replaced e ?pp fs) sharedItems)"
    using first by simp
  have 3: "\<forall>item \<in> set sharedItems.
              existsSync fs1 (source_of e item) = existsSync fs (source_of e item)
              \<and> lookup fs1 (target_of ?pp item) =
                  (if replaced e ?pp fs item then Some (Symlink (source_of e item))
                   else lookup fs (target_of ?pp item))
              \<and> (existsSync fs (source_of e item) \<longrightarrow>
                   existsSync fs1 (target_of ?pp item)
                   \<and> isSymbolicLink fs1 (target_of ?pp item))"
    using each by blast
  from 1 2 3 show ?thesis by (intro conjI)
qed

text \<open>
  The claim as stated fails in four ways. For the identifier \<open>x/../.claude\<close> the profile
  directory is the shared root, so the first call replaces the shared \<open>settings.json\<close> by
  a link to itself and the second call misses the required file. For the valid identifier
  \<open>work\<close>, when the shared \<open>settings.json\<close> is a link to the file of that name in the
  profile directory, the first call replaces that file by a link back, and the second call
  misses the required file as well. When the profile's \<open>settings.json\<close> is a link to a
  file in the profile's own \<open>agents\<close> directory, the first call replaces that directory
  by a link, the link at \<open>settings.json\<close> no longer resolves, and the second call fails to
  create a link in its place. When the shared \<open>settings.json\<close> is resolved through forty
  links, the link that the first call creates to it does not resolve, and the second call
  fails in the same way.
\<close>

theorem createSymlinks_second_call_fails_counterexample:
  "fst (createSymlinks ex_env ''x/../.claude'' clean_fs) =
     Inr [settings_link [''home'', ''u'', ''.claude'']]
   \<and> fst (createSymlinks ex_env ''x/../.claude''
            (snd (createSymlinks ex_env ''x/../.claude'' clean_fs))) =
       Inl (RequiredFileNotFound [''home'', ''u'', ''.claude'', ''settings.json''])
   \<and> isValidProfileName ''work''
   \<and> fst (createSymlinks ex_env ''work'' looping_fs) =
       Inr [settings_link [''home'', ''u'', ''.claude-work'']]
   \<and> fst (createSymlinks ex_env ''work'' (snd (createSymlinks ex_env ''work'' looping_fs))) =
       Inl (RequiredFileNotFound [''home'', ''u'', ''.claude'', ''settings.json''])
   \<and> fst (createSymlinks ex_env ''work'' foreign_fs) =
       Inr [agents_link [''home'', ''u'', ''.claude-work'']]
   \<and> fst (createSymlinks ex_env ''work'' (snd (createSymlinks ex_env ''work'' foreign_fs))) =
       Inl IOError
   \<and> fst (createSymlinks ex_env ''work'' chain_fs) =
       Inr [settings_link [''home'', ''u'', ''.claude-work'']]
   \<and> fst (createSymlinks ex_env ''work'' (snd (createSymlinks ex_env ''work'' chain_fs))) =
       Inl IOError"
  by code_simp

lemma linked_first:
  "fst (createSymlinks ex_env ''work'' linked_fs) =
     Inr [settings_link [''home'', ''u'', ''.claude-work''], agents_link [''home'', ''u'', ''.claude-work'']]"
  by code_simp

lemma linked_undisturbed: "undisturbed ex_env (getProfilePath ex_env ''work'') linked_fs"
  by code_simp

lemma linked_before:
  "isSymbolicLink linked_fs (source_of ex_env (sharedItems ! 0))
   \<and> lookup linked_fs [''home'', ''u'', ''.claude-work'', ''stats-cache.json''] =
       Some (Symlink [''home'', ''u'', ''other.json''])
   \<and> lookup linked_fs [''home'', ''u'', ''.claude-work'', ''agents'', ''local.md''] =
       Some (File (Text ''# local''))"
  by code_simp

lemma linked_after:
  "lookup (snd (createSymlinks ex_env ''work'' linked_fs))
        [''home'', ''u'', ''.claude-work'', ''settings.json''] =
       Some (Symlink [''home'', ''u'', ''.claude'', ''settings.json''])
   \<and> lookup (snd (createSymlinks ex_env ''work'' linked_fs))
        [''home'', ''u'', ''.claude-work'', ''stats-cache.json''] =
       Some (Symlink [''home'', ''u'', ''other.json''])
   \<and> lookup (snd (createSymlinks ex_env ''work'' linked_fs))
        [''home'', ''u'', ''.claude-work'', ''agents''] =
       Some (Symlink [''home'', ''u'', ''.claude'', ''agents''])
   \<and> lookup (snd (createSymlinks ex_env ''work'' linked_fs))
        [''home'', ''u'', ''.claude-work'', ''agents'', ''local.md''] = None"
  by code_simp

theorem createSymlinks_twice_witness:
  "undisturbed ex_env (getProfilePath ex_env ''work'') linked_fs
   \<and> isSymbolicLink linked_fs (source_of ex_env (sharedItems ! 0))
   \<and> lookup linked_fs [''home'', ''u'', ''.claude-work'', ''stats-cache.json''] =
       Some (Symlink [''home'', ''u'', ''other.json''])
   \<and> lookup linked_fs [''home'', ''u'', ''.claude-work'', ''agents'', ''local.md''] =
       Some (File (Text ''# local''))
   \<and> createSymlinks ex_env ''work'' linked_fs =
       (Inr [settings_link [''home'', ''u'', ''.claude-work''],
             agents_link [''home'', ''u'', ''.claude-work'']],
        snd (createSymlinks ex_env ''work'' linked_fs))
   \<and> createSymlinks ex_env ''work'' (snd (createSymlinks ex_env ''work'' linked_fs)) =
       (Inr [], snd (createSymlinks ex_env ''work'' linked_fs))
   \<and> lookup (snd (createSymlinks ex_env ''work'' linked_fs))
        [''home'', ''u'', ''.claude-work'', ''settings.json''] =
       Some (Symlink [''home'', ''u'', ''.claude'', ''settings.json''])
   \<and> lookup (snd (createSymlinks ex_env ''work'' linked_fs))
        [''home'', ''u'', ''.claude-work'', ''stats-cache.json''] =
       Some (Symlink [''home'', ''u'', ''other.json''])
   \<and> lookup (snd (createSymlinks ex_env ''work'' linked_fs))
        [''home'', ''u'', ''.claude-work'', ''agents''] =
       Some (Symlink [''home'', ''u'', ''.claude'', ''agents''])
   \<and> lookup (snd (createSymlinks ex_env ''work'' linked_fs))
        [''home'', ''u'', ''.claude-work'', ''agents'', ''local.md''] = None"
proof -
  have run: "createSymlinks ex_env ''work'' linked_fs =
       (Inr [settings_link [''home'', ''u'', ''.claude-work''],
             agents_link [''home'', ''u'', ''.claude-work'']],
        snd (createSymlinks ex_env ''work'' linked_fs))"
    using linked_first by (simp add: prod_eq_iff)
  from createSymlinks_twice [OF linked_undisturbed run]
  have again: "createSymlinks ex_env ''work'' (snd (createSymlinks ex_env ''work'' linked_fs)) =
       (Inr [], snd (createSymlinks ex_env ''work'' linked_fs))"
    by (rule conjunct1)
  from linked_undisturbed linked_before run again linked_after show ?thesis
    by (simp only: simp_thms)
qed

subsection \<open>Removal with an identifier that has no path separator\<close>

lemma unlink_result: "unlink fs p = Some fs' \<Longrightarrow> fs' = fs(p := None)"
  by (auto simp: unlink_def split: option.splits node.splits)

text \<open>Whatever the identifier, \<open>removeSymlinks\<close> removes nothing but symbolic links at
  target paths.\<close>

lemma removeSymlinks_loop_only_links:
  "removeSymlinks_loop pp items fs = (r, fs') \<Longrightarrow>
     fs' k = fs k
     \<or> (fs' k = None \<and> isSymbolicLink fs k \<and> k \<in> target_of pp ` set items)"
proof (induction items arbitrary: fs)
  case Nil
  then show ?case by simp
next
  case (Cons item items)
  let ?tgt = "target_of pp item"
  consider (keep) "removeSymlinks_loop pp items fs = (r, fs')"
    | (fail) "fs' = fs"
    | (cut) fs1 where "isSymbolicLink fs ?tgt" "unlink fs ?tgt = Some fs1"
        "removeSymlinks_loop pp items fs1 = (r, fs')"
    using Cons.prems by (auto split: if_splits option.splits)
  then show ?case
  proof cases
    case keep
    from Cons.IH [OF keep] show ?thesis by auto
  next
    case fail
    then show ?thesis by simp
  next
    case cut
    have fs1: "fs1 = fs(?tgt := None)" using cut(2) by (rule unlink_result)
    from Cons.IH [OF cut(3)]
    have r: "fs' k = fs1 k
      \<or> (fs' k = None \<and> isSymbolicLink fs1 k \<and> k \<in> target_of pp ` set items)" .
    show ?thesis
    proof (cases "k = ?tgt")
      case True
      then have "fs1 k = None" by (simp add: fs1)
      moreover have "\<not> isSymbolicLink fs1 k"
        using True by (simp add: fs1 isSymbolicLink_def lookup_def)
      ultimately have "fs' k = None" using r by auto
      then show ?thesis using True cut(1) by simp
    next
      case False
      then have "fs1 k = fs k" by (simp add: fs1)
      moreover have "isSymbolicLink fs1 k = isSymbolicLink fs k"
        using False by (simp add: fs1 isSymbolicLink_def lookup_def)
      ultimately show ?thesis using r by auto
    qed
  qed
qed

lemma removeProfileMetadata_result:
  "removeProfileMetadata e nm fs = (r, fs') \<Longrightarrow>
     fs' = fs \<or> (\<exists>q d. write_target 40 fs (profilesConfig e) = Some q \<and> fs' = fs(q \<mapsto> File d))"
  by (auto simp: removeProfileMetadata_def writeJson_def writeFile_def
      split: json_value.splits option.splits)

lemma removeProfile_result:
  assumes "removeProfile e nm fs = (r, fs')"
  shows "fs' = fs
    \<or> (\<exists>r1 fs1. removeSymlinks e nm fs = (r1, fs1) \<and>
          (fs' = fs1
           \<or> fs' = rm_rf fs1 (getProfilePath e nm)
           \<or> removeProfileMetadata e nm (rm_rf fs1 (getProfilePath e nm)) = (r, fs')
           \<or> removeProfileMetadata e nm
                 ((rm_rf fs1 (getProfilePath e nm))(getProfileCredentialsPath e nm := None)) = (r, fs')))"
proof -
  obtain r1 fs1 where rs: "removeSymlinks e nm fs = (r1, fs1)"
    by (cases "removeSymlinks e nm fs")
  show ?thesis
    using assms rs
    by (auto simp: removeProfile_def split: if_splits sum.splits option.splits
        dest!: rm_plain_result)
qed

lemma removeSymlinks_outside:
  assumes ns: "CHR ''/'' \<notin> set nm"
    and run: "removeSymlinks e nm fs = (r, fs')"
    and x: "x = path_normalize (HOME e) @ c # rest" "c \<noteq> ''.claude-'' @ nm"
  shows "fs' x = fs x"
proof -
  let ?pp = "getProfilePath e nm"
  have pp: "?pp = path_normalize (HOME e) @ [''.claude-'' @ nm]"
    using ns by (rule getProfilePath_path)
  have "x \<noteq> target_of ?pp item" if "item \<in> set sharedItems" for item
    using target_of_path [OF that normalize_getProfilePath, of e nm] x by (simp add: pp)
  then have "x \<notin> target_of ?pp ` set sharedItems" by blast
  then show ?thesis
    using removeSymlinks_loop_only_links [OF run [unfolded removeSymlinks_def], of x] by blast
qed

lemma removeProfile_outside:
  assumes ns: "CHR ''/'' \<notin> set nm"
    and ncfg: "\<not> isSymbolicLink fs (profilesConfig e)"
    and run: "removeProfile e nm fs = (r, fs')"
    and x: "x = path_normalize (HOME e) @ c # rest" "c \<noteq> ''.claude-'' @ nm"
      "c \<noteq> ''.claude-'' @ nm @ ''.json''" "x \<noteq> profilesConfig e"
  shows "fs' x = fs x"
proof -
  let ?pp = "getProfilePath e nm"
  let ?cred = "getProfileCredentialsPath e nm"
  let ?cfg = "profilesConfig e"
  have pp: "?pp = path_normalize (HOME e) @ [''.claude-'' @ nm]"
    using ns by (rule getProfilePath_path)
  have cred: "?cred = path_normalize (HOME e) @ [''.claude-'' @ nm @ ''.json'']"
    using ns by (rule getProfileCredentialsPath_path)
  have cfg: "?cfg = path_normalize (HOME e) @ [''.cc-profiles.json'']"
    by (rule profilesConfig_path)
  have steps: "fs1 y = fs y \<and> rm_rf fs1 ?pp y = fs y \<and> ((rm_rf fs1 ?pp)(?cred := None)) y = fs y"
    if rs: "removeSymlinks e nm fs = (r1, fs1)"
      and y: "y = path_normalize (HOME e) @ d # more" "d \<noteq> ''.claude-'' @ nm"
        "d \<noteq> ''.claude-'' @ nm @ ''.json''"
    for r1 fs1 y d more
  proof -
    have 1: "fs1 y = fs y" using removeSymlinks_outside [OF ns rs y(1,2)] .
    have "\<not> prefix ?pp y" using y by (simp add: pp)
    then have 2: "rm_rf fs1 ?pp y = fs1 y" by (rule rm_rf_frame)
    have 3: "y \<noteq> ?cred" using y by (simp add: cred)
    from 1 2 3 show ?thesis by simp
  qed
  have meta: "g x = fs x"
    if m: "removeProfileMetadata e nm f = (r, g)" and fx: "f x = fs x" and fc: "f ?cfg = fs ?cfg"
    for f g
  proof -
    from removeProfileMetadata_result [OF m]
    consider "g = f" | q d where "write_target 40 f ?cfg = Some q" "g = f(q \<mapsto> File d)"
      by blast
    then show ?thesis
    proof cases
      case 1
      then show ?thesis using fx by simp
    next
      case 2
      have "lookup f ?cfg = lookup fs ?cfg" using fc by (simp add: lookup_def)
      then have "\<not> isSymbolicLink f ?cfg" using ncfg by (simp add: isSymbolicLink_def)
      then have "q = ?cfg" using write_target_nonlink [OF 2(1)] by simp
      then show ?thesis using 2(2) fx x(4) by simp
    qed
  qed
  from removeProfile_result [OF run]
  consider "fs' = fs"
    | r1 fs1 where "removeSymlinks e nm fs = (r1, fs1)"
        "fs' = fs1 \<or> fs' = rm_rf fs1 ?pp
         \<or> removeProfileMetadata e nm (rm_rf fs1 ?pp) = (r, fs')
         \<or> removeProfileMetadata e nm ((rm_rf fs1 ?pp)(?cred := None)) = (r, fs')"
    by blast
  then show ?thesis
  proof cases
    case 1
    then show ?thesis by simp
  next
    case 2
    note sx = steps [OF 2(1) x(1,2,3)]
    have "''.cc-profiles.json'' \<noteq> ''.claude-'' @ nm"
      "''.cc-profiles.json'' \<noteq> ''.claude-'' @ nm @ ''.json''"
      by simp_all
    with cfg have sc: "fs1 ?cfg = fs ?cfg \<and> rm_rf fs1 ?pp ?cfg = fs ?cfg
        \<and> ((rm_rf fs1 ?pp)(?cred := None)) ?cfg = fs ?cfg"
      using steps [OF 2(1), of ?cfg "''.cc-profiles.json''" "[]"] by simp
    from 2(2) show ?thesis
    proof (elim disjE)
      assume "fs' = fs1"
      then show ?thesis using sx by simp
    next
      assume "fs' = rm_rf fs1 ?pp"
      then show ?thesis using sx by simp
    next
      assume "removeProfileMetadata e nm (rm_rf fs1 ?pp) = (r, fs')"
      then show ?thesis using meta sx sc by blast
    next
      assume "removeProfileMetadata e nm ((rm_rf fs1 ?pp)(?cred := None)) = (r, fs')"
      then show ?thesis using meta sx sc by blast
    qed
  qed
qed

text \<open>
  For an identifier without a path separator, and so for every valid one, removal does
  leave the shared root alone: no entry at or below it is changed by \<open>removeSymlinks\<close>,
  nor by \<open>removeProfile\<close> when the metadata file is not a symbolic link.
\<close>

lemma removal_keeps_shared_root:
  assumes ns: "CHR ''/'' \<notin> set nm"
    and k: "prefix (mainConfig e) k"
  shows "removeSymlinks e nm fs = (r, fs') \<longrightarrow> fs' k = fs k"
    and "\<not> isSymbolicLink fs (profilesConfig e) \<and> removeProfile e nm fs = (r, fs')
         \<longrightarrow> fs' k = fs k"
proof -
  from k obtain rest where kk: "k = path_normalize (HOME e) @ ''.claude'' # rest"
    by (auto simp: mainConfig_path elim!: prefixE)
  have c: "''.claude'' \<noteq> ''.claude-'' @ nm" "''.claude'' \<noteq> ''.claude-'' @ nm @ ''.json''"
    by simp_all
  have kc: "k \<noteq> profilesConfig e" using kk by (simp add: profilesConfig_path)
  show "removeSymlinks e nm fs = (r, fs') \<longrightarrow> fs' k = fs k"
    using removeSymlinks_outside [OF ns _ kk c(1)] by blast
  show "\<not> isSymbolicLink fs (profilesConfig e) \<and> removeProfile e nm fs = (r, fs')
         \<longrightarrow> fs' k = fs k"
    using removeProfile_outside [OF ns _ _ kk c kc] by blast
qed

end
